theory Spec2Isabelle
  imports Complex_Main "HOL-Library.Word"
begin

section \<open>JavaScript values used by the extension\<close>

text \<open>
  A JavaScript string is modelled as a \<^typ>\<open>string\<close>: one \<^typ>\<open>char\<close> stands for one
  UTF-16 code unit, so \<open>length\<close> is \<open>String.prototype.length\<close> and \<open>take 40\<close> is
  \<open>slice(0, 40)\<close>. A \<open>Uint8Array\<close> is a list of bytes. A finite \<open>number\<close> is the real
  number that the binary64 value denotes (the sign of zero is not modelled), and an
  arithmetic operation rounds its exact result to binary64 with \<open>fl\<close>.
\<close>

type_synonym byte = "8 word"

definition newline :: char where
  "newline = CHR 0x0A"

definition js_whitespace :: "char \<Rightarrow> bool" where
  \<comment> \<open>WhiteSpace and LineTerminator code units below 256: TAB, LF, VT, FF, CR, SP, NBSP.\<close>
  "js_whitespace c = (c \<in> set [CHR 0x09, CHR 0x0A, CHR 0x0B, CHR 0x0C, CHR 0x0D, CHR 0x20, CHR 0xA0])"

definition trim :: "string \<Rightarrow> string" where
  \<comment> \<open>\<open>String.prototype.trim\<close>\<close>
  "trim s = rev (dropWhile js_whitespace (rev (dropWhile js_whitespace s)))"

fun js_split :: "char \<Rightarrow> string \<Rightarrow> string list" where
  \<comment> \<open>\<open>s.split(sep)\<close> for a separator of one code unit; the result is never empty.\<close>
  "js_split sep [] = [[]]"
| "js_split sep (c # cs) =
     (if c = sep then [] # js_split sep cs
      else (case js_split sep cs of [] \<Rightarrow> [[c]] | l # ls \<Rightarrow> (c # l) # ls))"

definition pop :: "'a list \<Rightarrow> 'a option \<times> 'a list" where
  \<comment> \<open>\<open>Array.prototype.pop\<close>: the removed last element (\<open>undefined\<close> on an empty array)
      and the array that is left.\<close>
  "pop xs = (if xs = [] then (None, []) else (Some (last xs), butlast xs))"

definition digit :: "nat \<Rightarrow> char" where
  \<comment> \<open>the character of a decimal digit \<open>d < 10\<close>\<close>
  "digit d =
     (if d = 0 then CHR ''0'' else if d = 1 then CHR ''1'' else if d = 2 then CHR ''2''
      else if d = 3 then CHR ''3'' else if d = 4 then CHR ''4'' else if d = 5 then CHR ''5''
      else if d = 6 then CHR ''6'' else if d = 7 then CHR ''7'' else if d = 8 then CHR ''8''
      else CHR ''9'')"

function show_nat :: "nat \<Rightarrow> string" where
  \<comment> \<open>\<open>String(n)\<close> for a non-negative integer below \<open>10^21\<close>: its decimal digits.\<close>
  "show_nat n = (if n < 10 then [digit n] else show_nat (n div 10) @ [digit (n mod 10)])"
  by pat_completeness auto
termination
  by (relation "measure (\<lambda>n. n)") auto

declare show_nat.simps [simp del]

subsection \<open>Rounding to binary64\<close>

function scale :: "nat \<Rightarrow> real \<Rightarrow> real \<Rightarrow> real \<times> real" where
  \<comment> \<open>a positive \<open>s\<close> doubled or halved until it lies between \<open>2^52 = 4503599627370496\<close> and
      \<open>2^53\<close>, with \<open>f\<close> changed the other way; \<open>fuel\<close> bounds the number of steps\<close>
  "scale fuel s f =
     (if fuel = 0 then (s, f)
      else if s < 4503599627370496 then scale (fuel - 1) (s * 2) (f / 2)
      else if 9007199254740992 \<le> s then scale (fuel - 1) (s / 2) (f * 2)
      else (s, f))"
  by pat_completeness auto
termination
  by (relation "measure (\<lambda>(fuel, s, f). fuel)") auto

declare scale.simps [simp del]

definition round_half_even :: "real \<Rightarrow> int" where
  \<comment> \<open>the nearest integer, the even one of two\<close>
  "round_half_even s =
     (let k = \<lfloor>s\<rfloor>
      in if s - of_int k < 1 / 2 then k
         else if 1 / 2 < s - of_int k then k + 1
         else if even k then k else k + 1)"

definition fl :: "real \<Rightarrow> real" where
  \<comment> \<open>the binary64 number nearest to \<open>x\<close>, a tie going to the even significand: \<open>x\<close> is
      written as \<open>s * f\<close> with \<open>2^52 \<le> s < 2^53\<close> and \<open>f\<close> a power of two, and \<open>s\<close> is rounded
      to an integer. This is the rounding of every \<open>x\<close> with \<open>2^-1022 \<le> \<bar>x\<bar> < 2^1024\<close>, the
      normal range, and of zero; no number outside this range arises below.\<close>
  "fl x =
     (if x = 0 then 0
      else case scale 1200 \<bar>x\<bar> 1 of (s, f) \<Rightarrow> sgn x * of_int (round_half_even s) * f)"

subsection \<open>Values produced by \<open>JSON.parse\<close>\<close>

text \<open>
  The list of a \<open>JObj\<close> holds the own properties of the parsed object, one entry per key
  (\<open>JSON.parse\<close> keeps the last of duplicate keys). A JavaScript value that may be
  \<open>undefined\<close> is a \<^typ>\<open>'a option\<close> with \<open>None\<close> for \<open>undefined\<close>.
\<close>

datatype json =
    JNull
  | JBool bool
  | JNum real
  | JStr string
  | JArr "json list"
  | JObj "(string \<times> json) list"

fun get_prop :: "json \<Rightarrow> string \<Rightarrow> json option" where
  \<comment> \<open>\<open>v.key\<close> for a value \<open>v\<close> other than \<open>null\<close> and a key that no prototype
      defines (\<open>message\<close>, \<open>content\<close>, \<open>thinking\<close>, \<open>done\<close>, \<open>prompt_eval_count\<close>,
      \<open>eval_count\<close>): the own property of an object, \<open>undefined\<close> on anything else.\<close>
  "get_prop (JObj kvs) k = map_of kvs k"
| "get_prop _ k = None"

definition opt_chain :: "json option \<Rightarrow> string \<Rightarrow> json option" where
  \<comment> \<open>\<open>v?.key\<close>: \<open>undefined\<close> when \<open>v\<close> is \<open>undefined\<close> or \<open>null\<close>.\<close>
  "opt_chain v k = (case v of None \<Rightarrow> None | Some JNull \<Rightarrow> None | Some w \<Rightarrow> get_prop w k)"

fun truthy :: "json option \<Rightarrow> bool" where
  \<comment> \<open>ToBoolean\<close>
  "truthy None = False"
| "truthy (Some JNull) = False"
| "truthy (Some (JBool b)) = b"
| "truthy (Some (JNum n)) = (n \<noteq> 0)"
| "truthy (Some (JStr s)) = (s \<noteq> [])"
| "truthy (Some (JArr xs)) = True"
| "truthy (Some (JObj kvs)) = True"

fun or_else :: "json option \<Rightarrow> json \<Rightarrow> json" where
  \<comment> \<open>\<open>v || d\<close>\<close>
  "or_else None d = d"
| "or_else (Some v) d = (if truthy (Some v) then v else d)"

section \<open>ollamaClient.ts\<close>

datatype ChatRole = user | assistant | system

record ChatMessage =
  role :: ChatRole
  content :: string

record ChatChunk =
  content :: json
  thinking :: json
  done_c :: json
  promptTokens :: "json option"
  evalTokens :: "json option"

text \<open>
  The declared type of a \<open>ChatChunk\<close> says \<open>string\<close>, \<open>boolean\<close> and \<open>number\<close>, but the
  fields are filled by \<open>v || default\<close> from the parsed record, so they hold whatever truthy
  value the record carries; the field \<open>done\<close> is named \<open>done_c\<close> here.
\<close>

record ChatRequest =
  \<comment> \<open>the body of \<open>POST /api/chat\<close>; \<open>options\<close> is \<open>Some True\<close> for \<open>{ think: true }\<close>
      and \<open>None\<close> for \<open>undefined\<close>\<close>
  model :: string
  messages :: "ChatMessage list"
  stream :: bool
  options :: "bool option"

datatype JsError =
    Error string \<comment> \<open>\<open>new Error(message)\<close>\<close>
  | Thrown string \<comment> \<open>a value the platform throws, given by its \<open>String(e)\<close>\<close>

record Response =
  \<comment> \<open>what \<open>fetch\<close> resolves to: the status line, the chunks that successive
      \<open>reader.read()\<close> calls deliver, and how the body ends (\<open>None\<close>: \<open>done\<close>;
      \<open>Some e\<close>: the read is rejected with \<open>e\<close>)\<close>
  ok :: bool
  status :: nat
  statusText :: string
  body :: "byte list list"
  body_end :: "JsError option"

datatype FetchResult = Rejected JsError | Resolved Response

record 'st Platform =
  \<comment> \<open>the library functions the client calls: \<open>JSON.parse\<close> (\<open>None\<close>: it throws), the
      \<open>TextDecoder\<close> as the state machine of the Encoding Standard, which consumes one byte
      at a time and keeps its state between \<open>decode(value, { stream: true })\<close> calls, and
      the conversion of a number to a string\<close>
  JSON_parse :: "string \<Rightarrow> json option"
  decoder_init :: 'st
  decoder_step :: "'st \<Rightarrow> byte \<Rightarrow> 'st \<times> string"
  Number_toString :: "real \<Rightarrow> string"

fun decode :: "('st \<Rightarrow> byte \<Rightarrow> 'st \<times> string) \<Rightarrow> 'st \<Rightarrow> byte list \<Rightarrow> 'st \<times> string" where
  \<comment> \<open>\<open>decoder.decode(value, { stream: true })\<close>\<close>
  "decode h st [] = (st, [])"
| "decode h st (b # bs) =
     (case h st b of (st1, out1) \<Rightarrow>
        (case decode h st1 bs of (st2, out2) \<Rightarrow> (st2, out1 @ out2)))"

definition make_chunk :: "json \<Rightarrow> ChatChunk option" where
  \<comment> \<open>the object literal of the \<open>yield\<close>; \<open>None\<close> when reading \<open>chunk.message\<close> throws a
      TypeError, which is the case for \<open>chunk = null\<close> only\<close>
  "make_chunk chunk =
     (if chunk = JNull then None
      else Some \<lparr>
        ChatChunk.content = or_else (opt_chain (get_prop chunk ''message'') ''content'') (JStr ''''),
        thinking = or_else (opt_chain (get_prop chunk ''message'') ''thinking'') (JStr ''''),
        done_c = or_else (get_prop chunk ''done'') (JBool False),
        promptTokens = get_prop chunk ''prompt_eval_count'',
        evalTokens = get_prop chunk ''eval_count''\<rparr>)"

definition emit :: "(string \<Rightarrow> json option) \<Rightarrow> string \<Rightarrow> ChatChunk list" where
  \<comment> \<open>the body of the \<open>for\<close> loop over the lines, and the same code after the read loop:
      a blank line is skipped, and so is a line on which the \<open>try\<close> block throws\<close>
  "emit parse line =
     (if trim line = [] then []
      else (case parse line of
              None \<Rightarrow> []
            | Some chunk \<Rightarrow> (case make_chunk chunk of None \<Rightarrow> [] | Some c \<Rightarrow> [c])))"

fun read_loop ::
  "'st Platform \<Rightarrow> 'st \<Rightarrow> string \<Rightarrow> byte list list \<Rightarrow> JsError option
     \<Rightarrow> ChatChunk list \<times> JsError option" where
  \<comment> \<open>the \<open>while (true)\<close> loop and the code after it: the chunks yielded, in order, and the
      error thrown, if any\<close>
  "read_loop pf st buffer [] fin =
     (case fin of
        Some e \<Rightarrow> ([], Some e)
      | None \<Rightarrow> (emit (JSON_parse pf) buffer, None))"
| "read_loop pf st buffer (v # rest) fin =
     (case decode (decoder_step pf) st v of (st1, text) \<Rightarrow>
        (case pop (js_split newline (buffer @ text)) of (l, lines) \<Rightarrow>
           (case read_loop pf st1 (case l of None \<Rightarrow> [] | Some s \<Rightarrow> if s = [] then [] else s)
                   rest fin of (ys, err) \<Rightarrow>
              (concat (map (emit (JSON_parse pf)) lines) @ ys, err))))"

record GenResult =
  \<comment> \<open>one run of the generator to its end: the requests it sent, the chunks it yielded and
      the error it threw\<close>
  sent :: "ChatRequest list"
  yielded :: "ChatChunk list"
  thrown :: "JsError option"

definition chatStream ::
  "'st Platform \<Rightarrow> (ChatRequest \<Rightarrow> FetchResult) \<Rightarrow> string \<Rightarrow> ChatMessage list \<Rightarrow> bool \<Rightarrow> GenResult" where
  "chatStream pf fetch mdl msgs think =
     (let req = \<lparr>model = mdl, messages = msgs, stream = True,
                 options = (if think then Some True else None)\<rparr>
      in case fetch req of
           Rejected e \<Rightarrow> \<lparr>sent = [req], yielded = [], thrown = Some e\<rparr>
         | Resolved res \<Rightarrow>
             if \<not> ok res then
               \<lparr>sent = [req], yielded = [],
                thrown = Some (Error (''Ollama API error: '' @ show_nat (status res) @ '' ''
                                        @ statusText res))\<rparr>
             else (case read_loop pf (decoder_init pf) [] (body res) (body_end res) of
                     (ys, err) \<Rightarrow> \<lparr>sent = [req], yielded = ys, thrown = err\<rparr>))"

subsection \<open>The non-streaming \<open>chat\<close>\<close>

fun join :: "string \<Rightarrow> string list \<Rightarrow> string" where
  \<comment> \<open>\<open>Array.prototype.join\<close> on strings\<close>
  "join sep [] = []"
| "join sep [x] = x"
| "join sep (x # y # ys) = x @ sep @ join sep (y # ys)"

fun to_str :: "(real \<Rightarrow> string) \<Rightarrow> json \<Rightarrow> string" where
  \<comment> \<open>ToString of a parsed value, as \<open>s += v\<close> applies it: an array is its elements joined
      by commas with \<open>null\<close> as the empty string, a plain object is \<open>[object Object]\<close>\<close>
  "to_str ns JNull = ''null''"
| "to_str ns (JBool b) = (if b then ''true'' else ''false'')"
| "to_str ns (JNum n) = ns n"
| "to_str ns (JStr s) = s"
| "to_str ns (JArr xs) = join '','' (map (\<lambda>x. if x = JNull then [] else to_str ns x) xs)"
| "to_str ns (JObj kvs) = ''[object Object]''"

record ChatResult =
  content :: string
  thinking :: string
  promptTokens :: json
  evalTokens :: json

fun chat_loop :: "(real \<Rightarrow> string) \<Rightarrow> ChatResult \<Rightarrow> ChatChunk list \<Rightarrow> ChatResult" where
  \<comment> \<open>the \<open>for await\<close> loop of \<open>chat\<close> over the chunks of the stream\<close>
  "chat_loop ns acc [] = acc"
| "chat_loop ns acc (chunk # rest) =
     chat_loop ns
       \<lparr>ChatResult.content = ChatResult.content acc @ to_str ns (ChatChunk.content chunk),
        thinking = ChatResult.thinking acc @ to_str ns (ChatChunk.thinking chunk),
        promptTokens = or_else (ChatChunk.promptTokens chunk) (ChatResult.promptTokens acc),
        evalTokens = or_else (ChatChunk.evalTokens chunk) (ChatResult.evalTokens acc)\<rparr>
       rest"

definition chat ::
  "'st Platform \<Rightarrow> (ChatRequest \<Rightarrow> FetchResult) \<Rightarrow> string \<Rightarrow> ChatMessage list \<Rightarrow> bool
     \<Rightarrow> JsError + ChatResult" where
  \<comment> \<open>\<open>Inl e\<close>: the promise is rejected with the error the stream threw\<close>
  "chat pf fetch mdl msgs think =
     (let g = chatStream pf fetch mdl msgs think
      in case thrown g of
           Some e \<Rightarrow> Inl e
         | None \<Rightarrow>
             Inr (chat_loop (Number_toString pf)
                    \<lparr>ChatResult.content = '''', thinking = '''',
                     promptTokens = JNum 0, evalTokens = JNum 0\<rparr>
                    (yielded g)))"

record ModelInfo =
  contextLength :: json
  family :: json

definition getModelInfo :: "(string \<Rightarrow> JsError + json) \<Rightarrow> string \<Rightarrow> JsError + ModelInfo" where
  \<comment> \<open>\<open>fetch_show mdl\<close> is what \<open>POST /api/show\<close> and \<open>res.json()\<close> give for the model:
      the parsed body, or the error of a rejected promise; reading \<open>data.model_info\<close>
      throws a TypeError when the body is \<open>null\<close>\<close>
  "getModelInfo fetch_show mdl =
     (case fetch_show mdl of
        Inl e \<Rightarrow> Inl e
      | Inr data \<Rightarrow>
          if data = JNull then
            Inl (Thrown ''TypeError: Cannot read properties of null (reading 'model_info')'')
          else Inr \<lparr>
            contextLength =
              or_else (opt_chain (get_prop data ''model_info'') ''llama.context_length'')
                (or_else (opt_chain (get_prop data ''model_info'') ''context_length'')
                   (JNum 4096)),
            family = or_else (opt_chain (get_prop data ''details'') ''family'') (JStr '''')\<rparr>)"

section \<open>chatManager.ts\<close>

text \<open>A \<open>Date\<close> is its time value, the milliseconds since the epoch.\<close>

datatype MessageRole = User | Assistant

record Message =
  role :: MessageRole
  content :: string
  thinking :: "string option"
  thinkingTime :: "int option"
  timestamp :: int

record Chat =
  id_c :: string
  title :: string
  model :: string
  createdAt :: int
  messages :: "Message list"
  contextUsed :: nat
  contextTotal :: nat

record ChatsGroupedByDate =
  today :: "Chat list"
  yesterday :: "Chat list"
  older :: "Chat list"

record ChatManager =
  \<comment> \<open>\<open>persisted\<close> is the value last written to \<open>globalState\<close> under \<open>ollama-chats\<close>\<close>
  chats :: "Chat list"
  activeId :: "string option"
  persisted :: "Chat list"

fun update_first :: "('a \<Rightarrow> bool) \<Rightarrow> ('a \<Rightarrow> 'a) \<Rightarrow> 'a list \<Rightarrow> 'a list" where
  \<comment> \<open>the mutation of the object that \<open>find\<close> returns: the first element that satisfies
      the predicate is changed in place\<close>
  "update_first P f [] = []"
| "update_first P f (x # xs) = (if P x then f x # xs else x # update_first P f xs)"

definition front_id :: "Chat list \<Rightarrow> string option" where
  \<comment> \<open>\<open>chats[0]?.id || null\<close>\<close>
  "front_id cs = (case cs of [] \<Rightarrow> None | c # _ \<Rightarrow> if id_c c = [] then None else Some (id_c c))"

definition save :: "ChatManager \<Rightarrow> ChatManager" where
  "save s = s\<lparr>persisted := chats s\<rparr>"

definition load :: "Chat list \<Rightarrow> ChatManager" where
  \<comment> \<open>the constructor, on the stored collection with its dates revived\<close>
  "load data = \<lparr>chats = data, activeId = front_id data, persisted = data\<rparr>"

definition createChat :: "ChatManager \<Rightarrow> string \<Rightarrow> int \<Rightarrow> string \<Rightarrow> Chat \<times> ChatManager" where
  \<comment> \<open>\<open>uuid\<close> is what \<open>uuid()\<close> returns and \<open>now\<close> is \<open>new Date()\<close>\<close>
  "createChat s uuid now mdl =
     (let c = \<lparr>id_c = uuid, title = ''New Chat'', model = mdl, createdAt = now,
               messages = [], contextUsed = 0, contextTotal = 4096\<rparr>
      in (c, save (s\<lparr>chats := c # chats s, activeId := Some (id_c c)\<rparr>)))"

definition getActive :: "ChatManager \<Rightarrow> Chat option" where
  "getActive s = find (\<lambda>c. Some (id_c c) = activeId s) (chats s)"

definition setActive :: "ChatManager \<Rightarrow> string \<Rightarrow> ChatManager" where
  "setActive s i = (if list_ex (\<lambda>c. id_c c = i) (chats s) then s\<lparr>activeId := Some i\<rparr> else s)"

definition getById :: "ChatManager \<Rightarrow> string \<Rightarrow> Chat option" where
  "getById s i = find (\<lambda>c. id_c c = i) (chats s)"

definition renameChat :: "ChatManager \<Rightarrow> string \<Rightarrow> string \<Rightarrow> ChatManager" where
  "renameChat s i new_title =
     (case find (\<lambda>c. id_c c = i) (chats s) of
        None \<Rightarrow> s
      | Some found \<Rightarrow>
          save (s\<lparr>chats := update_first (\<lambda>c. id_c c = i)
                   (\<lambda>c. c\<lparr>title := (if trim new_title = [] then ''New Chat'' else trim new_title)\<rparr>)
                   (chats s)\<rparr>))"

definition deleteChat :: "ChatManager \<Rightarrow> string \<Rightarrow> ChatManager" where
  "deleteChat s i =
     (let cs = filter (\<lambda>c. id_c c \<noteq> i) (chats s)
      in save (s\<lparr>chats := cs,
                 activeId := (if activeId s = Some i then front_id cs else activeId s)\<rparr>))"

definition push_message :: "Message \<Rightarrow> Chat \<Rightarrow> Chat" where
  \<comment> \<open>what \<open>addMessage\<close> does to the chat it has found\<close>
  "push_message msg c =
     (let c1 = c\<lparr>messages := messages c @ [msg]\<rparr>
      in if length (messages c1) = 1 \<and> Message.role msg = User then
           (let text = trim (Message.content msg)
            in c1\<lparr>title := take 40 text @ (if length text > 40 then ''...'' else '''')\<rparr>)
         else c1)"

definition addMessage :: "ChatManager \<Rightarrow> string \<Rightarrow> Message \<Rightarrow> ChatManager" where
  "addMessage s chatId msg =
     (case find (\<lambda>c. id_c c = chatId) (chats s) of
        None \<Rightarrow> s
      | Some found \<Rightarrow>
          save (s\<lparr>chats := update_first (\<lambda>c. id_c c = chatId) (push_message msg) (chats s)\<rparr>))"

definition updateContext :: "ChatManager \<Rightarrow> string \<Rightarrow> nat \<Rightarrow> nat \<Rightarrow> ChatManager" where
  "updateContext s chatId used_n total_n =
     (case find (\<lambda>c. id_c c = chatId) (chats s) of
        None \<Rightarrow> s
      | Some found \<Rightarrow>
          save (s\<lparr>chats := update_first (\<lambda>c. id_c c = chatId)
                   (\<lambda>c. c\<lparr>contextUsed := used_n, contextTotal := total_n\<rparr>) (chats s)\<rparr>))"

definition updateModel :: "ChatManager \<Rightarrow> string \<Rightarrow> string \<Rightarrow> ChatManager" where
  "updateModel s chatId mdl =
     (case find (\<lambda>c. id_c c = chatId) (chats s) of
        None \<Rightarrow> s
      | Some found \<Rightarrow>
          save (s\<lparr>chats := update_first (\<lambda>c. id_c c = chatId) (\<lambda>c. c\<lparr>model := mdl\<rparr>) (chats s)\<rparr>))"

definition getChatsGroupedByDate :: "(int \<Rightarrow> int) \<Rightarrow> int \<Rightarrow> ChatManager \<Rightarrow> ChatsGroupedByDate" where
  \<comment> \<open>\<open>now\<close> is \<open>new Date()\<close>, and \<open>localMidnight now\<close> is
      \<open>new Date(now.getFullYear(), now.getMonth(), now.getDate())\<close>, the start of the
      local calendar day of \<open>now\<close>\<close>
  "getChatsGroupedByDate localMidnight now s =
     (let today = localMidnight now;
          yesterday = today - 86400000
      in \<lparr>today = filter (\<lambda>c. createdAt c \<ge> today) (chats s),
          yesterday = filter (\<lambda>c. createdAt c \<ge> yesterday \<and> createdAt c < today) (chats s),
          older = filter (\<lambda>c. createdAt c < yesterday) (chats s)\<rparr>)"

definition clearAllChats :: "ChatManager \<Rightarrow> ChatManager" where
  "clearAllChats s = save (s\<lparr>chats := [], activeId := None\<rparr>)"

section \<open>contextTracker.ts\<close>

text \<open>
  Token counts and capacities are counts: natural numbers (below \<open>2^53\<close>, where every
  natural number is a binary64 number and their sum is exact). The arithmetic of \<open>getUsage\<close>
  leaves the finite numbers when the capacity is zero, so its result is a \<open>Number\<close>;
  every operand here is non-negative and every result is far below \<open>2^1024\<close>.
\<close>

datatype Number = Finite real | Infinity | NaN

fun divide_N :: "Number \<Rightarrow> Number \<Rightarrow> Number" where
  \<comment> \<open>\<open>x / y\<close>\<close>
  "divide_N NaN y = NaN"
| "divide_N x NaN = NaN"
| "divide_N Infinity Infinity = NaN"
| "divide_N Infinity (Finite y) = Infinity"
| "divide_N (Finite x) Infinity = Finite 0"
| "divide_N (Finite x) (Finite y) =
     (if y = 0 then (if x = 0 then NaN else Infinity) else Finite (fl (x / y)))"

fun times_N :: "Number \<Rightarrow> Number \<Rightarrow> Number" where
  \<comment> \<open>\<open>x * y\<close>\<close>
  "times_N NaN y = NaN"
| "times_N x NaN = NaN"
| "times_N Infinity Infinity = Infinity"
| "times_N Infinity (Finite y) = (if y = 0 then NaN else Infinity)"
| "times_N (Finite x) Infinity = (if x = 0 then NaN else Infinity)"
| "times_N (Finite x) (Finite y) = Finite (fl (x * y))"

definition Math_round :: "real \<Rightarrow> int" where
  \<comment> \<open>\<open>Math.round\<close> on a finite number: the nearest integer, a tie going up\<close>
  "Math_round x = \<lfloor>x + 1 / 2\<rfloor>"

fun Math_round_N :: "Number \<Rightarrow> Number" where
  "Math_round_N NaN = NaN"
| "Math_round_N Infinity = Infinity"
| "Math_round_N (Finite x) = Finite (of_int (Math_round x))"

definition toFixed1 :: "real \<Rightarrow> string" where
  \<comment> \<open>\<open>x.toFixed(1)\<close> for \<open>0 \<le> x < 10^21\<close>: the integer \<open>k\<close> with \<open>k / 10\<close> nearest to
      \<open>x\<close>, the larger one of two, printed with one digit after the point\<close>
  "toFixed1 x =
     (let k = nat \<lfloor>x * 10 + 1 / 2\<rfloor> in show_nat (k div 10) @ ''.'' @ show_nat (k mod 10))"

fun show_Number :: "Number \<Rightarrow> string" where
  \<comment> \<open>\<open>String(x)\<close> for the values a percentage takes: \<open>NaN\<close>, \<open>Infinity\<close> and the binary64
      number nearest to \<open>k / 10\<close> for a natural number \<open>k\<close> below \<open>2^50\<close>, whose shortest
      decimal notation that reads back as the same number is that of \<open>k / 10\<close> (binary64
      numbers below \<open>2^49\<close> lie less than a tenth apart); on no other finite number is it
      used below\<close>
  "show_Number NaN = ''NaN''"
| "show_Number Infinity = ''Infinity''"
| "show_Number (Finite x) =
     (let k = nat (round (x * 10))
      in show_nat (k div 10) @ (if k mod 10 = 0 then [] else ''.'' @ show_nat (k mod 10)))"

record TokenCount =
  used :: nat
  total :: nat

record ContextUsage =
  percent :: Number
  used :: nat
  total :: nat

type_synonym ContextTracker = "string \<rightharpoonup> TokenCount"

definition update :: "ContextTracker \<Rightarrow> string \<Rightarrow> nat \<Rightarrow> nat \<Rightarrow> nat \<Rightarrow> ContextTracker" where
  "update tokenCounts chatId prompt_n eval_n total_n =
     tokenCounts(chatId \<mapsto> \<lparr>TokenCount.used = prompt_n + eval_n, total = total_n\<rparr>)"

definition getUsage :: "ContextTracker \<Rightarrow> string \<Rightarrow> ContextUsage" where
  "getUsage tokenCounts chatId =
     (case tokenCounts chatId of
        None \<Rightarrow> \<lparr>percent = Finite 0, used = 0, total = 4096\<rparr>
      | Some data \<Rightarrow>
          \<lparr>percent =
             divide_N
               (Math_round_N
                  (times_N
                     (divide_N (Finite (of_nat (TokenCount.used data)))
                        (Finite (of_nat (TokenCount.total data))))
                     (Finite 1000)))
               (Finite 10),
           used = TokenCount.used data,
           total = TokenCount.total data\<rparr>)"

definition formatK :: "nat \<Rightarrow> string" where
  "formatK n = (if n \<ge> 1000 then toFixed1 (fl (of_nat n / 1000)) @ ''K'' else show_nat n)"

definition formatDisplay :: "ContextTracker \<Rightarrow> string \<Rightarrow> string" where
  \<comment> \<open>the separator is the middle dot, code unit \<open>0xB7\<close>\<close>
  "formatDisplay tokenCounts chatId =
     (let u = getUsage tokenCounts chatId
      in show_Number (percent u) @ ''% '' @ [CHR 0xB7] @ '' '' @ formatK (ContextUsage.used u)
           @ '' / '' @ formatK (ContextUsage.total u) @ '' context used'')"

definition reset :: "ContextTracker \<Rightarrow> string \<Rightarrow> ContextTracker" where
  "reset tokenCounts chatId = tokenCounts(chatId := None)"

definition setTotal :: "ContextTracker \<Rightarrow> string \<Rightarrow> nat \<Rightarrow> ContextTracker" where
  "setTotal tokenCounts chatId total_n =
     (case tokenCounts chatId of
        Some existing \<Rightarrow> tokenCounts(chatId \<mapsto> existing\<lparr>TokenCount.total := total_n\<rparr>)
      | None \<Rightarrow> tokenCounts(chatId \<mapsto> \<lparr>TokenCount.used = 0, total = total_n\<rparr>))"

section \<open>sidebarProvider.ts: \<open>handleSendMessage\<close>\<close>

record Model =
  name :: string
  loaded :: bool
  contextLength :: nat
  supportsThinking :: bool

datatype WebviewMsg =
    AddMessageMsg Message
  | StreamStart
  | StreamUpdate string string int
  | ContextUpdate string ContextUsage
  | StreamComplete "Message option"
  | ErrorMsg string

record Provider =
  \<comment> \<open>the fields of \<open>OllamaChatProvider\<close> that \<open>handleSendMessage\<close> uses, the messages
      posted to the webview, the chat requests sent, and the number of clock reads so far\<close>
  chatManager :: ChatManager
  contextTracker :: ContextTracker
  models :: "Model list"
  posted :: "WebviewMsg list"
  requests :: "ChatRequest list"
  ticks :: nat

record World =
  \<comment> \<open>what the environment answers: the response to a chat request, the parsed body of
      \<open>POST /api/show\<close> for a model (or the error of the rejected promise), and the time
      that the \<open>n\<close>-th read of the clock gives\<close>
  fetch_chat :: "ChatRequest \<Rightarrow> FetchResult"
  fetch_show :: "string \<Rightarrow> JsError + json"
  clock :: "nat \<Rightarrow> int"

record Locals =
  \<comment> \<open>the local variables of \<open>handleSendMessage\<close> that the loop assigns\<close>
  thinking :: string
  content :: string
  lastThinkingTime :: int

definition postMessage :: "WebviewMsg \<Rightarrow> Provider \<Rightarrow> Provider" where
  "postMessage m s = s\<lparr>posted := posted s @ [m]\<rparr>"

fun String_of_error :: "JsError \<Rightarrow> string" where
  \<comment> \<open>\<open>String(error)\<close>\<close>
  "String_of_error (Error m) = ''Error: '' @ m"
| "String_of_error (Thrown t) = t"

fun as_count :: "json \<Rightarrow> nat option" where
  \<comment> \<open>the count that a parsed value is, if it is a non-negative integer\<close>
  "as_count (JNum r) = (if 0 \<le> r \<and> of_int \<lfloor>r\<rfloor> = r then Some (nat \<lfloor>r\<rfloor>) else None)"
| "as_count _ = None"

definition on_error :: "JsError \<Rightarrow> Provider \<Rightarrow> Provider" where
  \<comment> \<open>the \<open>catch\<close> block\<close>
  "on_error e s = postMessage (StreamComplete None) (postMessage (ErrorMsg (String_of_error e)) s)"

text \<open>
  The loop over the chunks of the stream. Its result is \<open>None\<close> when the server sends, in
  a record that is done, a token count or a context length that is not a non-negative
  integer: the declared types exclude such a value and the model says nothing about the run.
  Otherwise it is the error thrown inside the loop, if any, with the local variables and the
  provider. No other handler runs while this one waits.
\<close>

fun consume ::
  "'st Platform \<Rightarrow> World \<Rightarrow> Chat \<Rightarrow> int \<Rightarrow> ChatChunk list \<Rightarrow> Locals \<Rightarrow> Provider
     \<Rightarrow> (JsError option \<times> Locals \<times> Provider) option" where
  "consume pf w c startTime [] l s = Some (None, l, s)"
| "consume pf w c startTime (chunk # rest) l s =
     (let (l1, s1) =
            (if truthy (Some (ChatChunk.thinking chunk)) then
               (l\<lparr>Locals.thinking :=
                    Locals.thinking l @ to_str (Number_toString pf) (ChatChunk.thinking chunk),
                  lastThinkingTime :=
                    Math_round (fl (of_int (clock w (ticks s) - startTime) / 1000))\<rparr>,
                s\<lparr>ticks := Suc (ticks s)\<rparr>)
             else (l, s));
          l2 = (if truthy (Some (ChatChunk.content chunk)) then
                  l1\<lparr>Locals.content :=
                       Locals.content l1 @ to_str (Number_toString pf) (ChatChunk.content chunk)\<rparr>
                else l1);
          s2 = postMessage
                 (StreamUpdate (Locals.thinking l2) (Locals.content l2) (lastThinkingTime l2)) s1
      in if truthy (Some (done_c chunk)) \<and> ChatChunk.promptTokens chunk \<noteq> None
              \<and> ChatChunk.evalTokens chunk \<noteq> None then
           (case getModelInfo (fetch_show w) (Chat.model c) of
              Inl e \<Rightarrow> Some (Some e, l2, s2)
            | Inr modelInfo \<Rightarrow>
                (case (Option.bind (ChatChunk.promptTokens chunk) as_count,
                       Option.bind (ChatChunk.evalTokens chunk) as_count,
                       as_count (ModelInfo.contextLength modelInfo)) of
                   (Some p, Some e, Some t) \<Rightarrow>
                     (let s3 = s2\<lparr>contextTracker := update (contextTracker s2) (id_c c) p e t,
                                   chatManager := updateContext (chatManager s2) (id_c c) (p + e) t\<rparr>;
                          s4 = postMessage
                                 (ContextUpdate (formatDisplay (contextTracker s3) (id_c c))
                                    (getUsage (contextTracker s3) (id_c c))) s3
                      in consume pf w c startTime rest l2 s4)
                 | _ \<Rightarrow> None))
         else consume pf w c startTime rest l2 s2)"

definition handleSendMessage ::
  "'st Platform \<Rightarrow> World \<Rightarrow> string \<Rightarrow> Provider \<Rightarrow> Provider option" where
  "handleSendMessage pf w text s =
     (case getActive (chatManager s) of
        None \<Rightarrow> Some s
      | Some c \<Rightarrow>
          if trim text = [] then Some s
          else
            (let userMsg = \<lparr>Message.role = User, content = trim text, thinking = None,
                            thinkingTime = None, timestamp = clock w (ticks s)\<rparr>;
                 s1 = postMessage (AddMessageMsg userMsg)
                        (s\<lparr>chatManager := addMessage (chatManager s) (id_c c) userMsg,
                           ticks := Suc (ticks s)\<rparr>);
                 startTime = clock w (ticks s1);
                 s2 = postMessage StreamStart (s1\<lparr>ticks := Suc (ticks s1)\<rparr>);
                 msgs = map (\<lambda>m. \<lparr>ChatMessage.role =
                                     (case Message.role m of User \<Rightarrow> user | Assistant \<Rightarrow> assistant),
                                   content = Message.content m\<rparr>)
                          (messages (push_message userMsg c));
                 supports = (case find (\<lambda>m. name m = Chat.model c) (models s2) of
                               None \<Rightarrow> False
                             | Some m \<Rightarrow> supportsThinking m);
                 g = chatStream pf (fetch_chat w) (Chat.model c) msgs supports;
                 s3 = s2\<lparr>requests := requests s2 @ sent g\<rparr>
             in case consume pf w c startTime (yielded g)
                       \<lparr>Locals.thinking = '''', content = '''', lastThinkingTime = 0\<rparr> s3 of
                  None \<Rightarrow> None
                | Some (Some e, l, s4) \<Rightarrow> Some (on_error e s4)
                | Some (None, l, s4) \<Rightarrow>
                    (case thrown g of
                       Some e \<Rightarrow> Some (on_error e s4)
                     | None \<Rightarrow>
                         (let assistantMsg =
                                \<lparr>Message.role = Assistant, content = Locals.content l,
                                 thinking = (if Locals.thinking l = [] then None
                                             else Some (Locals.thinking l)),
                                 thinkingTime = (if Locals.thinking l = [] then None
                                                 else Some (lastThinkingTime l)),
                                 timestamp = clock w (ticks s4)\<rparr>
                          in Some (postMessage (StreamComplete (Some assistantMsg))
                                (s4\<lparr>chatManager :=
                                       addMessage (chatManager s4) (id_c c) assistantMsg,
                                     ticks := Suc (ticks s4)\<rparr>))))))"

section \<open>A platform and records for the examples\<close>

text \<open>
  The examples run on ASCII payloads. On a byte below \<open>0x80\<close> the UTF-8 decoder emits the
  code unit of the same value and keeps no state; \<open>sample_parse\<close> is \<open>JSON.parse\<close> on the
  texts of the examples (it is used on no other text), and \<open>sample_toString\<close> is the
  conversion of a non-negative integer.
\<close>

definition utf8_ascii :: "string \<Rightarrow> byte list" where
  \<comment> \<open>the UTF-8 encoding of an ASCII text\<close>
  "utf8_ascii s = map (\<lambda>c. of_nat (of_char c)) s"

definition ascii_step :: "unit \<Rightarrow> byte \<Rightarrow> unit \<times> string" where
  "ascii_step st b = (st, [char_of (unat b)])"

definition rec_hel :: string where
  \<open>rec_hel = ''{"message":{"content":"Hel"}}''\<close>

definition rec_lo :: string where
  \<open>rec_lo = ''{"message":{"content":"lo"}}''\<close>

definition rec_done :: string where
  \<open>rec_done = ''{"done":true,"prompt_eval_count":10,"eval_count":5}''\<close>

definition rec_prompt5 :: string where
  \<open>rec_prompt5 = ''{"prompt_eval_count":5}''\<close>

definition rec_prompt0 :: string where
  \<open>rec_prompt0 = ''{"prompt_eval_count":0}''\<close>

definition sample_parse :: "string \<Rightarrow> json option" where
  "sample_parse s =
     (if s = ''null'' then Some JNull
      else if s = ''{}'' then Some (JObj [])
      else if s = rec_hel then Some (JObj [(''message'', JObj [(''content'', JStr ''Hel'')])])
      else if s = rec_lo then Some (JObj [(''message'', JObj [(''content'', JStr ''lo'')])])
      else if s = rec_done then
        Some (JObj [(''done'', JBool True), (''prompt_eval_count'', JNum 10), (''eval_count'', JNum 5)])
      else if s = rec_prompt5 then Some (JObj [(''prompt_eval_count'', JNum 5)])
      else if s = rec_prompt0 then Some (JObj [(''prompt_eval_count'', JNum 0)])
      else None)"

definition sample_toString :: "real \<Rightarrow> string" where
  "sample_toString r = show_nat (nat \<lfloor>r\<rfloor>)"

definition sample_platform :: "unit Platform" where
  "sample_platform =
     \<lparr>JSON_parse = sample_parse, decoder_init = (), decoder_step = ascii_step,
      Number_toString = sample_toString\<rparr>"

definition respond :: "byte list list \<Rightarrow> ChatRequest \<Rightarrow> FetchResult" where
  \<comment> \<open>a server that answers every request with status 200 and the given chunks\<close>
  "respond chunks =
     (\<lambda>req. Resolved \<lparr>ok = True, status = 200, statusText = ''OK'', body = chunks,
                       body_end = None\<rparr>)"

definition chat_at :: "string \<Rightarrow> int \<Rightarrow> Chat" where
  \<comment> \<open>a fresh chat with the given identifier and creation time\<close>
  "chat_at i t =
     \<lparr>id_c = i, title = ''New Chat'', model = ''m'', createdAt = t, messages = [],
      contextUsed = 0, contextTotal = 4096\<rparr>"

definition utc_midnight :: "int \<Rightarrow> int" where
  \<comment> \<open>the start of the calendar day in a time zone without offset\<close>
  "utc_midnight t = t - t mod 86400000"

definition user_msg :: "string \<Rightarrow> Message" where
  "user_msg text =
     \<lparr>Message.role = User, content = text, thinking = None, thinkingTime = None, timestamp = 0\<rparr>"

definition failing_world :: World where
  \<comment> \<open>a server that answers every chat request with status 500\<close>
  "failing_world =
     \<lparr>fetch_chat = (\<lambda>req. Resolved \<lparr>ok = False, status = 500,
                                      statusText = ''Internal Server Error'', body = [],
                                      body_end = None\<rparr>),
      fetch_show = (\<lambda>m. Inr (JObj [])),
      clock = (\<lambda>n. 1000 * int n)\<rparr>"

definition hello_world :: World where
  \<comment> \<open>a server that streams the three records of a short answer in two chunks, and knows a
      context length of 8192 for every model\<close>
  "hello_world =
     \<lparr>fetch_chat =
        respond [utf8_ascii (rec_hel @ newline # rec_lo), utf8_ascii (newline # rec_done)],
      fetch_show = (\<lambda>m. Inr (JObj [(''model_info'', JObj [(''llama.context_length'', JNum 8192)])])),
      clock = (\<lambda>n. 1000 * int n)\<rparr>"

definition sample_provider :: Provider where
  \<comment> \<open>a provider with one fresh chat, which is active\<close>
  "sample_provider =
     \<lparr>chatManager = \<lparr>chats = [chat_at ''a'' 0], activeId = Some ''a'',
                      persisted = [chat_at ''a'' 0]\<rparr>,
      contextTracker = Map.empty, models = [], posted = [], requests = [], ticks = 0\<rparr>"

section \<open>Notions of the specification\<close>

definition last_truthy :: "json \<Rightarrow> json option list \<Rightarrow> json" where
  \<comment> \<open>the last truthy value of a sequence of optional values, or the default\<close>
  "last_truthy d vs = (case filter truthy vs of [] \<Rightarrow> d | w # ws \<Rightarrow> or_else (last (w # ws)) d)"


definition active_ok :: "ChatManager \<Rightarrow> bool" where
  \<comment> \<open>the active pointer is \<open>null\<close> or the identifier of a chat of the collection\<close>
  "active_ok s = (case activeId s of None \<Rightarrow> True | Some a \<Rightarrow> list_ex (\<lambda>c. id_c c = a) (chats s))"

definition ids_ok :: "ChatManager \<Rightarrow> bool" where
  \<comment> \<open>no chat has the empty identifier: \<open>uuid()\<close> returns 36 characters\<close>
  "ids_ok s = list_all (\<lambda>c. id_c c \<noteq> []) (chats s)"

definition recency_ordered :: "Chat list \<Rightarrow> bool" where
  \<comment> \<open>most recently created first\<close>
  "recency_ordered cs = sorted_wrt (\<lambda>a b. createdAt a \<ge> createdAt b) cs"

datatype Op =
    CreateChat string int string
  | SetActive string
  | DeleteChat string
  | RenameChat string string
  | AddMessage string Message
  | UpdateContext string nat nat
  | UpdateModel string string
  | ClearAllChats

fun apply_op :: "ChatManager \<Rightarrow> Op \<Rightarrow> ChatManager" where
  "apply_op s (CreateChat uuid now mdl) = snd (createChat s uuid now mdl)"
| "apply_op s (SetActive i) = setActive s i"
| "apply_op s (DeleteChat i) = deleteChat s i"
| "apply_op s (RenameChat i t) = renameChat s i t"
| "apply_op s (AddMessage i m) = addMessage s i m"
| "apply_op s (UpdateContext i u t) = updateContext s i u t"
| "apply_op s (UpdateModel i m) = updateModel s i m"
| "apply_op s ClearAllChats = clearAllChats s"

definition empty_store :: ChatManager where
  "empty_store = load []"

definition run_ops :: "Op list \<Rightarrow> ChatManager" where
  \<comment> \<open>the store after a sequence of operations on the empty store\<close>
  "run_ops ops = foldl apply_op empty_store ops"

section \<open>Properties of the stream decoder\<close>

lemma js_split_nonempty [simp]: "js_split c s \<noteq> []"
  by (induction s) (auto split: list.splits)

lemma decode_append:
  "decode h st (a @ b) =
     (case decode h st a of (s1, t1) \<Rightarrow> (case decode h s1 b of (s2, t2) \<Rightarrow> (s2, t1 @ t2)))"
  by (induction a arbitrary: st) (auto split: prod.splits)

lemma js_split_no_sep: "c \<notin> set s \<Longrightarrow> js_split c s = [s]"
  by (induction s) auto

lemma js_split_line: "c \<notin> set l \<Longrightarrow> js_split c (l @ c # rest) = l # js_split c rest"
  by (induction l) auto

lemma last_js_split_no_sep: "c \<notin> set (last (js_split c s))"
  by (induction s) (auto split: list.splits)

lemma js_split_append:
  "js_split c (a @ b) = butlast (js_split c a) @ js_split c (last (js_split c a) @ b)"
proof (induction a)
  case Nil
  then show ?case by simp
next
  case (Cons x a)
  show ?case
  proof (cases "x = c")
    case True
    then show ?thesis using Cons by simp
  next
    case False
    obtain l ls where sp: "js_split c a = l # ls"
      using js_split_nonempty [of c a] by (cases "js_split c a") auto
    show ?thesis
    proof (cases ls)
      case Nil
      then show ?thesis using False sp Cons by simp
    next
      case (Cons y ys)
      then show ?thesis using False sp Cons.IH by simp
    qed
  qed
qed

lemma if_same_empty: "(if s = [] then [] else s) = s"
  by simp

lemma pop_js_split:
  "pop (js_split c s) = (Some (last (js_split c s)), butlast (js_split c s))"
  by (simp add: pop_def)

text \<open>
  The loop on any chunking is the loop on the decoded text as a whole: every line but the
  last is handled in the loop, the last one after it.
\<close>

lemma read_loop_whole:
  "newline \<notin> set buffer \<Longrightarrow>
   read_loop pf st buffer chunks fin =
     (case decode (decoder_step pf) st (concat chunks) of (st1, text) \<Rightarrow>
        (concat (map (emit (JSON_parse pf)) (butlast (js_split newline (buffer @ text))))
           @ (case fin of None \<Rightarrow> emit (JSON_parse pf) (last (js_split newline (buffer @ text)))
                        | Some e \<Rightarrow> []),
         fin))"
proof (induction chunks arbitrary: st buffer)
  case Nil
  then show ?case by (simp add: js_split_no_sep split: option.splits)
next
  case (Cons v rest)
  obtain st1 t1 where d1: "decode (decoder_step pf) st v = (st1, t1)"
    by (cases "decode (decoder_step pf) st v")
  obtain st2 t2 where d2: "decode (decoder_step pf) st1 (concat rest) = (st2, t2)"
    by (cases "decode (decoder_step pf) st1 (concat rest)")
  let ?L = "js_split newline (buffer @ t1)"
  let ?b = "last ?L"
  have nb: "newline \<notin> set ?b" by (rule last_js_split_no_sep)
  have ih: "read_loop pf st1 ?b rest fin =
      (concat (map (emit (JSON_parse pf)) (butlast (js_split newline (?b @ t2))))
           @ (case fin of None \<Rightarrow> emit (JSON_parse pf) (last (js_split newline (?b @ t2)))
                        | Some e \<Rightarrow> []),
         fin)"
    using Cons.IH [OF nb, of st1] d2 by simp
  have sp: "js_split newline (buffer @ t1 @ t2) = butlast ?L @ js_split newline (?b @ t2)"
    using js_split_append [of newline "buffer @ t1" t2] by simp
  have bl: "butlast (js_split newline (buffer @ t1 @ t2))
      = butlast ?L @ butlast (js_split newline (?b @ t2))"
    by (simp add: sp butlast_append)
  have la: "last (js_split newline (buffer @ t1 @ t2)) = last (js_split newline (?b @ t2))"
    by (simp add: sp)
  have step: "read_loop pf st buffer (v # rest) fin =
      (concat (map (emit (JSON_parse pf)) (butlast ?L)) @ fst (read_loop pf st1 ?b rest fin),
       snd (read_loop pf st1 ?b rest fin))"
    by (simp only: read_loop.simps d1 pop_js_split prod.case option.case if_same_empty
          case_prod_beta fst_conv snd_conv)
  have dec: "decode (decoder_step pf) st (concat (v # rest)) = (st2, t1 @ t2)"
    by (simp add: decode_append d1 d2)
  show ?case
    unfolding step ih dec by (simp add: bl la split: option.splits)
qed

lemma read_loop_chunking:
  "read_loop pf st [] chunks fin = read_loop pf st [] [concat chunks] fin"
proof -
  have e: "newline \<notin> set []" by simp
  show ?thesis
    unfolding read_loop_whole [OF e] by simp
qed

lemma chatStream_text:
  assumes "fetch \<lparr>ChatRequest.model = mdl, messages = msgs, stream = True,
                   options = (if think then Some True else None)\<rparr> = Resolved res"
    and "ok res" and "body_end res = None"
    and "snd (decode (decoder_step pf) (decoder_init pf) (concat (body res))) = text"
  shows "chatStream pf fetch mdl msgs think =
     \<lparr>sent = [\<lparr>ChatRequest.model = mdl, messages = msgs, stream = True,
                options = (if think then Some True else None)\<rparr>],
      yielded = concat (map (emit (JSON_parse pf)) (butlast (js_split newline text)))
                  @ emit (JSON_parse pf) (last (js_split newline text)),
      thrown = None\<rparr>"
proof -
  have e: "newline \<notin> set []" by simp
  obtain st1 where d: "decode (decoder_step pf) (decoder_init pf) (concat (body res)) = (st1, text)"
    using assms(4) by (cases "decode (decoder_step pf) (decoder_init pf) (concat (body res))") auto
  show ?thesis
    unfolding chatStream_def Let_def assms(1) read_loop_whole [OF e]
    by (simp add: assms(2,3) d)
qed

text \<open>
  C1. Whatever the payload and however it is cut into chunks, the stream run on the chunks
  is the stream run on the whole payload delivered as one chunk: the same requests, the
  same chunks yielded in the same order, the same outcome. Blank lines are skipped in both.
\<close>

theorem frame_splitting:
  "chatStream pf (\<lambda>req. Resolved (res\<lparr>body := chunks\<rparr>)) mdl msgs think
     = chatStream pf (\<lambda>req. Resolved (res\<lparr>body := [concat chunks]\<rparr>)) mdl msgs think"
  unfolding chatStream_def Let_def
  by (simp add: read_loop_chunking [of pf _ chunks] del: read_loop.simps)

lemma emit_valid:
  "JSON_parse pf l = Some j \<Longrightarrow> make_chunk j = Some c \<Longrightarrow> trim l \<noteq> []
     \<Longrightarrow> emit (JSON_parse pf) l = [c]"
  by (simp add: emit_def)

lemma emit_invalid: "JSON_parse pf l = None \<Longrightarrow> emit (JSON_parse pf) l = []"
  by (simp add: emit_def)

lemma emit_empty: "emit p [] = []"
  by (simp add: emit_def trim_def)

lemma three_lines:
  assumes "newline \<notin> set a" "newline \<notin> set b" "newline \<notin> set c"
    and "trail = [] \<or> trail = [newline]"
  shows "concat (map (emit p) (butlast (js_split newline (a @ newline # b @ newline # c @ trail))))
           @ emit p (last (js_split newline (a @ newline # b @ newline # c @ trail)))
         = emit p a @ emit p b @ emit p c"
proof -
  have sp: "js_split newline (a @ newline # b @ newline # rest) = a # b # js_split newline rest"
    for rest
    using assms(1,2) by (simp add: js_split_line)
  from assms(4) show ?thesis
  proof
    assume t: "trail = []"
    have "js_split newline (a @ newline # b @ newline # c @ trail) = [a, b, c]"
      unfolding sp t using assms(3) by (simp add: js_split_no_sep)
    then show ?thesis by simp
  next
    assume t: "trail = [newline]"
    have "js_split newline (c @ [newline]) = [c, []]"
      using js_split_line [OF assms(3), of "[]"] by simp
    then have "js_split newline (a @ newline # b @ newline # c @ trail) = [a, b, c, []]"
      unfolding sp t by simp
    then show ?thesis by (simp add: emit_empty)
  qed
qed

text \<open>
  C2 (amended). Let two non-blank lines be accepted by \<open>JSON.parse\<close> with values other
  than \<open>null\<close> (so that each gives a chunk), and let a line that \<open>JSON.parse\<close> rejects stand
  between them. Then the stream yields exactly the two chunks of the valid lines, in order,
  and throws nothing; with a valid line in the place of the rejected one it yields exactly
  one chunk more.
\<close>

theorem malformed_line_skipped:
  assumes "JSON_parse pf l1 = Some j1" and "make_chunk j1 = Some c1" and "trim l1 \<noteq> []"
    and "JSON_parse pf l2 = Some j2" and "make_chunk j2 = Some c2" and "trim l2 \<noteq> []"
    and "JSON_parse pf good = Some j3" and "make_chunk j3 = Some c3" and "trim good \<noteq> []"
    and "JSON_parse pf bad = None"
    and "newline \<notin> set l1" and "newline \<notin> set l2" and "newline \<notin> set good"
    and "newline \<notin> set bad"
    and "trail = [] \<or> trail = [newline]"
    and "ok res" and "body_end res = None"
    and "snd (decode (decoder_step pf) (decoder_init pf) (concat (body res)))
           = l1 @ newline # bad @ newline # l2 @ trail"
    and "ok res'" and "body_end res' = None"
    and "snd (decode (decoder_step pf) (decoder_init pf) (concat (body res')))
           = l1 @ newline # good @ newline # l2 @ trail"
  shows "yielded (chatStream pf (\<lambda>req. Resolved res) mdl msgs think) = [c1, c2]
       \<and> thrown (chatStream pf (\<lambda>req. Resolved res) mdl msgs think) = None
       \<and> yielded (chatStream pf (\<lambda>req. Resolved res') mdl msgs think) = [c1, c3, c2]
       \<and> length (yielded (chatStream pf (\<lambda>req. Resolved res) mdl msgs think)) + 1
           = length (yielded (chatStream pf (\<lambda>req. Resolved res') mdl msgs think))"
proof -
  have e1: "emit (JSON_parse pf) l1 = [c1]" using assms(1-3) by (rule emit_valid)
  have e2: "emit (JSON_parse pf) l2 = [c2]" using assms(4-6) by (rule emit_valid)
  have e3: "emit (JSON_parse pf) good = [c3]" using assms(7-9) by (rule emit_valid)
  have eb: "emit (JSON_parse pf) bad = []" using assms(10) by (rule emit_invalid)
  have r: "chatStream pf (\<lambda>req. Resolved res) mdl msgs think =
      \<lparr>sent = [\<lparr>ChatRequest.model = mdl, messages = msgs, stream = True,
                 options = (if think then Some True else None)\<rparr>],
       yielded = [c1, c2], thrown = None\<rparr>"
    using chatStream_text [of "\<lambda>req. Resolved res" mdl msgs think res pf, OF refl assms(16,17,18)]
      three_lines [OF assms(11,14,12,15), of "JSON_parse pf"]
    by (simp add: e1 e2 eb)
  have r': "chatStream pf (\<lambda>req. Resolved res') mdl msgs think =
      \<lparr>sent = [\<lparr>ChatRequest.model = mdl, messages = msgs, stream = True,
                 options = (if think then Some True else None)\<rparr>],
       yielded = [c1, c3, c2], thrown = None\<rparr>"
    using chatStream_text [of "\<lambda>req. Resolved res'" mdl msgs think res' pf, OF refl assms(19,20,21)]
      three_lines [OF assms(11,13,12,15), of "JSON_parse pf"]
    by (simp add: e1 e2 e3)
  show ?thesis by (simp add: r r')
qed

lemma ascii_roundtrip: "decode ascii_step st (utf8_ascii s) = (st, s)"
  by (induction s) (simp_all add: utf8_ascii_def ascii_step_def unat_of_nat)

lemma chatStream_sample:
  "chatStream sample_platform (respond [utf8_ascii payload]) mdl msgs think =
     \<lparr>sent = [\<lparr>ChatRequest.model = mdl, messages = msgs, stream = True,
                options = (if think then Some True else None)\<rparr>],
      yielded = concat (map (emit sample_parse) (butlast (js_split newline payload)))
                  @ emit sample_parse (last (js_split newline payload)),
      thrown = None\<rparr>"
  using chatStream_text [of "respond [utf8_ascii payload]" mdl msgs think
       "\<lparr>ok = True, status = 200, statusText = ''OK'', body = [utf8_ascii payload],
         body_end = None\<rparr>"
       sample_platform payload]
  by (simp add: respond_def sample_platform_def ascii_roundtrip)

lemmas sample_lines = rec_hel_def rec_lo_def rec_done_def rec_prompt5_def rec_prompt0_def

lemmas eval_emit = emit_def sample_parse_def sample_lines make_chunk_def opt_chain_def trim_def
  js_whitespace_def newline_def

theorem malformed_line_skipped_witness:
  "yielded (chatStream sample_platform
      (respond [utf8_ascii (rec_hel @ newline # ''not json'' @ newline # rec_lo @ [newline])])
      ''m'' [] True)
     = [\<lparr>ChatChunk.content = JStr ''Hel'', thinking = JStr '''', done_c = JBool False,
         promptTokens = None, evalTokens = None\<rparr>,
        \<lparr>ChatChunk.content = JStr ''lo'', thinking = JStr '''', done_c = JBool False,
         promptTokens = None, evalTokens = None\<rparr>]"
proof -
  let ?res = "\<lambda>mid. \<lparr>ok = True, status = 200, statusText = ''OK'',
     body = [utf8_ascii (rec_hel @ newline # mid @ newline # rec_lo @ [newline])],
     body_end = None\<rparr>"
  have "yielded (chatStream sample_platform (\<lambda>req. Resolved (?res ''not json'')) ''m'' [] True)
     = [\<lparr>ChatChunk.content = JStr ''Hel'', thinking = JStr '''', done_c = JBool False,
         promptTokens = None, evalTokens = None\<rparr>,
        \<lparr>ChatChunk.content = JStr ''lo'', thinking = JStr '''', done_c = JBool False,
         promptTokens = None, evalTokens = None\<rparr>]"
    using malformed_line_skipped [of sample_platform rec_hel
        "JObj [(''message'', JObj [(''content'', JStr ''Hel'')])]"
        "\<lparr>ChatChunk.content = JStr ''Hel'', thinking = JStr '''', done_c = JBool False,
         promptTokens = None, evalTokens = None\<rparr>"
        rec_lo "JObj [(''message'', JObj [(''content'', JStr ''lo'')])]"
        "\<lparr>ChatChunk.content = JStr ''lo'', thinking = JStr '''', done_c = JBool False,
         promptTokens = None, evalTokens = None\<rparr>"
        "''{}''" "JObj []"
        "\<lparr>ChatChunk.content = JStr '''', thinking = JStr '''', done_c = JBool False,
         promptTokens = None, evalTokens = None\<rparr>"
        "''not json''" "[newline]" "?res ''not json''" "?res ''{}''" "''m''" "[]" True]
    by (simp add: sample_platform_def ascii_roundtrip sample_parse_def sample_lines
        make_chunk_def opt_chain_def trim_def js_whitespace_def newline_def)
  then show ?thesis by (simp add: respond_def)
qed

theorem null_line_counterexample:
  "JSON_parse sample_platform ''null'' = Some JNull
   \<and> JSON_parse sample_platform ''not json'' = None
   \<and> JSON_parse sample_platform ''{}'' = Some (JObj [])
   \<and> yielded (chatStream sample_platform
         (respond [utf8_ascii (''null'' @ newline # ''not json'' @ newline # ''{}'' @ [newline])])
         ''m'' [] True)
       = [\<lparr>ChatChunk.content = JStr '''', thinking = JStr '''', done_c = JBool False,
           promptTokens = None, evalTokens = None\<rparr>]"
proof -
  have sp: "js_split newline (''null'' @ newline # ''not json'' @ newline # ''{}'' @ [newline])
      = [''null'', ''not json'', ''{}'', []]"
    by (simp add: newline_def)
  show ?thesis
    unfolding chatStream_sample sp
    by (simp add: sample_platform_def eval_emit)
qed

section \<open>Properties of \<open>chat\<close>\<close>

lemma or_else_truthy: "truthy v \<Longrightarrow> or_else v d = or_else v d'"
  by (cases v) auto

lemma last_truthy_Cons: "last_truthy d (v # vs) = last_truthy (or_else v d) vs"
proof (cases "filter truthy vs")
  case Nil
  then show ?thesis by (cases v) (auto simp: last_truthy_def)
next
  case (Cons w ws)
  then have "last (w # ws) \<in> set (filter truthy vs)"
    by (metis last_in_set list.distinct(1))
  then have t: "truthy (last (w # ws))" by simp
  have eq: "or_else (last (w # ws)) d = or_else (last (w # ws)) (or_else v d)"
    by (rule or_else_truthy [OF t])
  have l: "last (v # w # ws) = last (w # ws)" by simp
  show ?thesis
    by (cases "truthy v") (simp_all only: last_truthy_def filter.simps Cons if_True if_False
          list.case l eq)
qed

lemma chat_loop_eq:
  "chat_loop ns acc ys =
     \<lparr>ChatResult.content =
        ChatResult.content acc @ concat (map (\<lambda>c. to_str ns (ChatChunk.content c)) ys),
      thinking = ChatResult.thinking acc @ concat (map (\<lambda>c. to_str ns (ChatChunk.thinking c)) ys),
      promptTokens = last_truthy (ChatResult.promptTokens acc) (map ChatChunk.promptTokens ys),
      evalTokens = last_truthy (ChatResult.evalTokens acc) (map ChatChunk.evalTokens ys)\<rparr>"
proof (induction ys arbitrary: acc)
  case Nil
  then show ?case by (simp add: last_truthy_def)
next
  case (Cons y ys)
  show ?case
    by (simp add: Cons.IH last_truthy_Cons)
qed

text \<open>
  C9 (amended). When the stream throws, \<open>chat\<close> is rejected with that error. Otherwise its
  content is the concatenation, in order, of the content fields of the chunks that the
  stream yields on the same inputs (each converted to a string, as \<open>+=\<close> does), its thinking
  is the concatenation of the thinking fields, and its prompt and evaluation token counts
  are the last truthy (present and non-zero) counts among the chunks, or 0 if there is none.
\<close>

theorem chat_collects:
  "chat pf fetch mdl msgs think =
     (case thrown (chatStream pf fetch mdl msgs think) of
        Some e \<Rightarrow> Inl e
      | None \<Rightarrow>
          Inr \<lparr>ChatResult.content =
                 concat (map (\<lambda>c. to_str (Number_toString pf) (ChatChunk.content c))
                           (yielded (chatStream pf fetch mdl msgs think))),
               thinking =
                 concat (map (\<lambda>c. to_str (Number_toString pf) (ChatChunk.thinking c))
                           (yielded (chatStream pf fetch mdl msgs think))),
               promptTokens =
                 last_truthy (JNum 0)
                   (map ChatChunk.promptTokens (yielded (chatStream pf fetch mdl msgs think))),
               evalTokens =
                 last_truthy (JNum 0)
                   (map ChatChunk.evalTokens (yielded (chatStream pf fetch mdl msgs think)))\<rparr>)"
  by (simp add: chat_def Let_def chat_loop_eq split: option.splits)


lemma utf8_ascii_append: "utf8_ascii (a @ b) = utf8_ascii a @ utf8_ascii b"
  by (simp add: utf8_ascii_def)

lemma chatStream_sample_chunks:
  assumes "concat chunks = utf8_ascii payload"
  shows "chatStream sample_platform (respond chunks) mdl msgs think =
     \<lparr>sent = [\<lparr>ChatRequest.model = mdl, messages = msgs, stream = True,
                options = (if think then Some True else None)\<rparr>],
      yielded = concat (map (emit sample_parse) (butlast (js_split newline payload)))
                  @ emit sample_parse (last (js_split newline payload)),
      thrown = None\<rparr>"
  using chatStream_text [of "respond chunks" mdl msgs think
       "\<lparr>ok = True, status = 200, statusText = ''OK'', body = chunks, body_end = None\<rparr>"
       sample_platform payload]
  by (simp add: respond_def sample_platform_def ascii_roundtrip assms)

lemma hello_stream:
  "chatStream sample_platform
     (respond [utf8_ascii (rec_hel @ newline # rec_lo), utf8_ascii (newline # rec_done)])
     mdl msgs think =
     \<lparr>sent = [\<lparr>ChatRequest.model = mdl, messages = msgs, stream = True,
                options = (if think then Some True else None)\<rparr>],
      yielded =
        [\<lparr>ChatChunk.content = JStr ''Hel'', thinking = JStr '''', done_c = JBool False,
          promptTokens = None, evalTokens = None\<rparr>,
         \<lparr>ChatChunk.content = JStr ''lo'', thinking = JStr '''', done_c = JBool False,
          promptTokens = None, evalTokens = None\<rparr>,
         \<lparr>ChatChunk.content = JStr '''', thinking = JStr '''', done_c = JBool True,
          promptTokens = Some (JNum 10), evalTokens = Some (JNum 5)\<rparr>],
      thrown = None\<rparr>"
proof -
  have c: "concat [utf8_ascii (rec_hel @ newline # rec_lo), utf8_ascii (newline # rec_done)]
      = utf8_ascii (rec_hel @ newline # rec_lo @ newline # rec_done)"
    by (simp add: utf8_ascii_def)
  have sp: "js_split newline (rec_hel @ newline # rec_lo @ newline # rec_done)
      = [rec_hel, rec_lo, rec_done]"
    by (simp add: newline_def sample_lines)
  have e1: "emit sample_parse rec_hel =
      [\<lparr>ChatChunk.content = JStr ''Hel'', thinking = JStr '''', done_c = JBool False,
          promptTokens = None, evalTokens = None\<rparr>]"
    by (simp add: eval_emit)
  have e2: "emit sample_parse rec_lo =
      [\<lparr>ChatChunk.content = JStr ''lo'', thinking = JStr '''', done_c = JBool False,
          promptTokens = None, evalTokens = None\<rparr>]"
    by (simp add: eval_emit)
  have e3: "emit sample_parse rec_done =
      [\<lparr>ChatChunk.content = JStr '''', thinking = JStr '''', done_c = JBool True,
          promptTokens = Some (JNum 10), evalTokens = Some (JNum 5)\<rparr>]"
    by (simp add: eval_emit)
  show ?thesis
    unfolding chatStream_sample_chunks [OF c] sp by (simp add: e1 e2 e3)
qed

theorem chat_collects_witness:
  "chat sample_platform
     (respond [utf8_ascii (rec_hel @ newline # rec_lo), utf8_ascii (newline # rec_done)])
     ''m'' [] True
   = Inr \<lparr>ChatResult.content = ''Hello'', thinking = '''', promptTokens = JNum 10,
          evalTokens = JNum 5\<rparr>"
  using chat_collects [of sample_platform
      "respond [utf8_ascii (rec_hel @ newline # rec_lo), utf8_ascii (newline # rec_done)]"
      "''m''" "[]" True]
  by (simp add: hello_stream last_truthy_def)

theorem zero_count_counterexample:
  "map ChatChunk.promptTokens
     (yielded (chatStream sample_platform
        (respond [utf8_ascii (rec_prompt5 @ newline # rec_prompt0 @ [newline])]) ''m'' [] True))
     = [Some (JNum 5), Some (JNum 0)]
   \<and> chat sample_platform
        (respond [utf8_ascii (rec_prompt5 @ newline # rec_prompt0 @ [newline])]) ''m'' [] True
     = Inr \<lparr>ChatResult.content = '''', thinking = '''', promptTokens = JNum 5,
            evalTokens = JNum 0\<rparr>"
proof -
  have sp: "js_split newline (rec_prompt5 @ newline # rec_prompt0 @ [newline])
      = [rec_prompt5, rec_prompt0, []]"
    by (simp add: newline_def sample_lines)
  have e1: "emit sample_parse rec_prompt5 =
      [\<lparr>ChatChunk.content = JStr '''', thinking = JStr '''', done_c = JBool False,
          promptTokens = Some (JNum 5), evalTokens = None\<rparr>]"
    by (simp add: eval_emit)
  have e2: "emit sample_parse rec_prompt0 =
      [\<lparr>ChatChunk.content = JStr '''', thinking = JStr '''', done_c = JBool False,
          promptTokens = Some (JNum 0), evalTokens = None\<rparr>]"
    by (simp add: eval_emit)
  have g: "chatStream sample_platform
        (respond [utf8_ascii (rec_prompt5 @ newline # rec_prompt0 @ [newline])]) ''m'' [] True
      = \<lparr>sent = [\<lparr>ChatRequest.model = ''m'', messages = [], stream = True,
                options = Some True\<rparr>],
         yielded =
           [\<lparr>ChatChunk.content = JStr '''', thinking = JStr '''', done_c = JBool False,
             promptTokens = Some (JNum 5), evalTokens = None\<rparr>,
            \<lparr>ChatChunk.content = JStr '''', thinking = JStr '''', done_c = JBool False,
             promptTokens = Some (JNum 0), evalTokens = None\<rparr>],
         thrown = None\<rparr>"
    unfolding chatStream_sample sp by (simp add: e1 e2 emit_empty)
  show ?thesis
    unfolding chat_def g by simp
qed

section \<open>Properties of the chat manager\<close>

lemma find_update_first:
  "(\<And>x. P x \<Longrightarrow> P (f x)) \<Longrightarrow> find P (update_first P f xs) = map_option f (find P xs)"
  by (induction xs) auto

lemma map_id_update_first:
  "(\<And>x. id_c (f x) = id_c x) \<Longrightarrow> map id_c (update_first P f xs) = map id_c xs"
  by (induction xs) auto

lemma list_ex_id: "list_ex (\<lambda>c. id_c c = a) xs \<longleftrightarrow> a \<in> set (map id_c xs)"
  by (auto simp: list_ex_iff)

lemma id_push_message [simp]: "id_c (push_message msg c) = id_c c"
  by (simp add: push_message_def Let_def)

lemma messages_push_message [simp]: "messages (push_message msg c) = messages c @ [msg]"
  by (simp add: push_message_def Let_def)

text \<open>
  C5. Appending a message to an existing session adds it at the end of the log. When the log
  was empty and the message is a user message, the title becomes the trimmed text if that
  has at most 40 characters, and its first 40 characters followed by \<open>...\<close> otherwise; when
  the log was not empty, or the message is not a user message, the title stays as it was.
\<close>

theorem addMessage_title:
  assumes "getById s chatId = Some c"
  shows "\<exists>c'. getById (addMessage s chatId msg) chatId = Some c'
     \<and> messages c' = messages c @ [msg]
     \<and> (messages c = [] \<and> Message.role msg = User \<longrightarrow>
          title c' = (if length (trim (Message.content msg)) \<le> 40 then trim (Message.content msg)
                      else take 40 (trim (Message.content msg)) @ ''...''))
     \<and> (messages c \<noteq> [] \<or> Message.role msg \<noteq> User \<longrightarrow> title c' = title c)"
proof -
  have f: "find (\<lambda>c. id_c c = chatId) (chats s) = Some c"
    using assms by (simp add: getById_def)
  have g: "getById (addMessage s chatId msg) chatId = Some (push_message msg c)"
    by (simp add: getById_def addMessage_def f save_def find_update_first)
  have t1: "messages c = [] \<and> Message.role msg = User \<longrightarrow>
      title (push_message msg c) =
        (if length (trim (Message.content msg)) \<le> 40 then trim (Message.content msg)
         else take 40 (trim (Message.content msg)) @ ''...'')"
    by (simp add: push_message_def Let_def)
  have t2: "messages c \<noteq> [] \<or> Message.role msg \<noteq> User \<longrightarrow>
      title (push_message msg c) = title c"
    by (auto simp: push_message_def Let_def)
  show ?thesis using g t1 t2 by simp
qed

theorem addMessage_title_witness:
  "\<exists>c'. getById
          (addMessage \<lparr>chats = [chat_at ''a'' 0], activeId = Some ''a'', persisted = []\<rparr> ''a''
             (user_msg ''  Explain quicksort in detail please ''))
          ''a'' = Some c'
     \<and> title c' = ''Explain quicksort in detail please''"
  using addMessage_title
    [of "\<lparr>chats = [chat_at ''a'' 0], activeId = Some ''a'', persisted = []\<rparr>" "''a''"
        "chat_at ''a'' 0" "user_msg ''  Explain quicksort in detail please ''"]
  by (simp add: getById_def chat_at_def user_msg_def trim_def js_whitespace_def) blast

lemma front_id_ids_ok:
  "list_all (\<lambda>c. id_c c \<noteq> []) cs \<Longrightarrow> front_id cs = (case cs of [] \<Rightarrow> None | c # _ \<Rightarrow> Some (id_c c))"
  by (cases cs) (auto simp: front_id_def)

lemma filter_absent: "\<not> list_ex (\<lambda>c. id_c c = i) cs \<Longrightarrow> filter (\<lambda>c. id_c c \<noteq> i) cs = cs"
  by (induction cs) auto

lemma recency_front:
  "recency_ordered (a # cs) \<Longrightarrow> c \<in> set (a # cs) \<Longrightarrow> createdAt c \<le> createdAt a"
  by (auto simp: recency_ordered_def)

lemma recency_filter: "recency_ordered cs \<Longrightarrow> recency_ordered (filter P cs)"
  by (simp add: recency_ordered_def sorted_wrt_filter)

text \<open>
  C7. \<open>deleteChat\<close> removes every session with the given identifier and no other. If that
  session was the active one, the front of the remaining collection becomes active, or none
  when nothing remains; with the collection ordered by recency, the session that is active
  afterwards is a most recently created one of those that remain. Deleting another session
  leaves the active pointer as it is, and deleting an identifier that no session has leaves
  the collection and the pointer unchanged. In particular, of three sessions with the active
  one not at the front, deleting the active one makes the front one active. (No session has
  the empty identifier, and the active pointer is not dangling, as in every store that the
  operations build.)
\<close>

theorem deleteChat_reassigns:
  "chats (deleteChat s i) = filter (\<lambda>c. id_c c \<noteq> i) (chats s)
   \<and> (activeId s = Some i \<and> ids_ok s \<longrightarrow>
        activeId (deleteChat s i) =
          (case chats (deleteChat s i) of [] \<Rightarrow> None | c # _ \<Rightarrow> Some (id_c c)))
   \<and> (activeId s = Some i \<and> ids_ok s \<and> recency_ordered (chats s) \<longrightarrow>
        (case getActive (deleteChat s i) of
           None \<Rightarrow> chats (deleteChat s i) = []
         | Some a \<Rightarrow> a \<in> set (chats (deleteChat s i))
                     \<and> (\<forall>c \<in> set (chats (deleteChat s i)). createdAt c \<le> createdAt a)))
   \<and> (activeId s \<noteq> Some i \<longrightarrow> activeId (deleteChat s i) = activeId s)
   \<and> (\<not> list_ex (\<lambda>c. id_c c = i) (chats s) \<and> active_ok s \<longrightarrow>
        chats (deleteChat s i) = chats s \<and> activeId (deleteChat s i) = activeId s)
   \<and> (chats s = [c1, c2, c3] \<and> ids_ok s \<and> activeId s = Some i \<and> i \<noteq> id_c c1 \<longrightarrow>
        activeId (deleteChat s i) = Some (id_c c1))"
proof -
  let ?cs = "filter (\<lambda>c. id_c c \<noteq> i) (chats s)"
  have ch: "chats (deleteChat s i) = ?cs"
    by (simp add: deleteChat_def Let_def save_def)
  have act: "activeId (deleteChat s i) = (if activeId s = Some i then front_id ?cs else activeId s)"
    by (simp add: deleteChat_def Let_def save_def)
  have ok: "ids_ok s \<Longrightarrow> list_all (\<lambda>c. id_c c \<noteq> []) ?cs"
    by (auto simp: ids_ok_def list_all_iff)
  have p2: "activeId s = Some i \<and> ids_ok s \<longrightarrow>
      activeId (deleteChat s i) = (case chats (deleteChat s i) of [] \<Rightarrow> None | c # _ \<Rightarrow> Some (id_c c))"
    using ok by (simp add: act ch front_id_ids_ok)
  have p3: "activeId s = Some i \<and> ids_ok s \<and> recency_ordered (chats s) \<longrightarrow>
        (case getActive (deleteChat s i) of
           None \<Rightarrow> chats (deleteChat s i) = []
         | Some a \<Rightarrow> a \<in> set (chats (deleteChat s i))
                     \<and> (\<forall>c \<in> set (chats (deleteChat s i)). createdAt c \<le> createdAt a))"
  proof
    assume h: "activeId s = Some i \<and> ids_ok s \<and> recency_ordered (chats s)"
    show "case getActive (deleteChat s i) of
           None \<Rightarrow> chats (deleteChat s i) = []
         | Some a \<Rightarrow> a \<in> set (chats (deleteChat s i))
                     \<and> (\<forall>c \<in> set (chats (deleteChat s i)). createdAt c \<le> createdAt a)"
    proof (cases ?cs)
      case Nil
      then show ?thesis using h by (simp add: getActive_def ch act front_id_def)
    next
      case (Cons a rest)
      have ro: "recency_ordered (a # rest)"
        using h recency_filter [of "chats s" "\<lambda>c. id_c c \<noteq> i"] Cons by simp
      have aid: "activeId (deleteChat s i) = Some (id_c a)"
        using h ok Cons by (simp add: act front_id_ids_ok)
      have ga: "getActive (deleteChat s i) = Some a"
        by (simp add: getActive_def aid ch Cons)
      show ?thesis
        using recency_front [OF ro] by (simp add: ga ch Cons)
    qed
  qed
  have p4: "activeId s \<noteq> Some i \<longrightarrow> activeId (deleteChat s i) = activeId s"
    by (simp add: act)
  have p5: "\<not> list_ex (\<lambda>c. id_c c = i) (chats s) \<and> active_ok s \<longrightarrow>
        chats (deleteChat s i) = chats s \<and> activeId (deleteChat s i) = activeId s"
    by (auto simp: ch act filter_absent active_ok_def split: option.splits)
  have p6: "chats s = [c1, c2, c3] \<and> ids_ok s \<and> activeId s = Some i \<and> i \<noteq> id_c c1 \<longrightarrow>
        activeId (deleteChat s i) = Some (id_c c1)"
    by (auto simp: act ids_ok_def front_id_def)
  show ?thesis using ch p2 p3 p4 p5 p6 by blast
qed

theorem deleteChat_reassigns_witness:
  "activeId (deleteChat
      \<lparr>chats = [chat_at ''c3'' 30, chat_at ''c2'' 20, chat_at ''c1'' 10],
       activeId = Some ''c2'', persisted = []\<rparr> ''c2'') = Some ''c3''
   \<and> chats (deleteChat
      \<lparr>chats = [chat_at ''c3'' 30, chat_at ''c2'' 20, chat_at ''c1'' 10],
       activeId = Some ''c2'', persisted = []\<rparr> ''c2'') = [chat_at ''c3'' 30, chat_at ''c1'' 10]"
  using deleteChat_reassigns
    [of "\<lparr>chats = [chat_at ''c3'' 30, chat_at ''c2'' 20, chat_at ''c1'' 10],
          activeId = Some ''c2'', persisted = []\<rparr>" "''c2''"
        "chat_at ''c3'' 30" "chat_at ''c2'' 20" "chat_at ''c1'' 10"]
  by (simp add: ids_ok_def chat_at_def)

lemma active_ok_ids: "active_ok s \<longleftrightarrow> (\<forall>a. activeId s = Some a \<longrightarrow> a \<in> id_c ` set (chats s))"
  by (auto simp: active_ok_def list_ex_iff split: option.splits)

lemma active_ok_save [simp]: "active_ok (save s) = active_ok s"
  by (simp add: active_ok_ids save_def)

lemma active_ok_update_first:
  assumes "active_ok s" and "\<And>x. id_c (f x) = id_c x"
  shows "active_ok (s\<lparr>chats := update_first P f (chats s)\<rparr>)"
proof -
  have "map id_c (update_first P f (chats s)) = map id_c (chats s)"
    using assms(2) by (rule map_id_update_first)
  then have "id_c ` set (update_first P f (chats s)) = id_c ` set (chats s)"
    by (metis set_map)
  then show ?thesis using assms(1) by (simp add: active_ok_ids)
qed

lemma front_id_mem: "front_id cs = Some a \<Longrightarrow> a \<in> id_c ` set cs"
  by (cases cs) (auto simp: front_id_def split: if_splits)

lemma active_ok_createChat: "active_ok (snd (createChat s uuid now mdl))"
  by (simp add: createChat_def Let_def active_ok_ids save_def)

lemma active_ok_setActive: "active_ok s \<Longrightarrow> active_ok (setActive s i)"
  by (auto simp: setActive_def active_ok_ids list_ex_iff)

lemma active_ok_deleteChat: "active_ok s \<Longrightarrow> active_ok (deleteChat s i)"
  by (auto simp: deleteChat_def Let_def active_ok_ids save_def dest: front_id_mem)

lemma active_ok_renameChat: "active_ok s \<Longrightarrow> active_ok (renameChat s i t)"
  by (auto simp: renameChat_def intro: active_ok_update_first split: option.splits)

lemma active_ok_addMessage: "active_ok s \<Longrightarrow> active_ok (addMessage s i m)"
  by (auto simp: addMessage_def intro: active_ok_update_first split: option.splits)

lemma active_ok_updateContext: "active_ok s \<Longrightarrow> active_ok (updateContext s i u t)"
  by (auto simp: updateContext_def intro: active_ok_update_first split: option.splits)

lemma active_ok_updateModel: "active_ok s \<Longrightarrow> active_ok (updateModel s i m)"
  by (auto simp: updateModel_def intro: active_ok_update_first split: option.splits)

lemma active_ok_clearAllChats: "active_ok (clearAllChats s)"
  by (simp add: clearAllChats_def active_ok_ids save_def)

lemma active_ok_apply_op: "active_ok s \<Longrightarrow> active_ok (apply_op s op)"
  by (cases op)
    (simp_all add: active_ok_createChat active_ok_setActive active_ok_deleteChat
      active_ok_renameChat active_ok_addMessage active_ok_updateContext active_ok_updateModel
      active_ok_clearAllChats)

lemma active_ok_foldl: "active_ok s \<Longrightarrow> active_ok (foldl apply_op s ops)"
  by (induction ops arbitrary: s) (simp_all add: active_ok_apply_op)

lemma active_ok_empty_store: "active_ok empty_store"
  by (simp add: empty_store_def load_def active_ok_def front_id_def)

lemma getActive_mem: "getActive s = Some c \<Longrightarrow> c \<in> set (chats s) \<and> activeId s = Some (id_c c)"
  by (auto simp: getActive_def find_Some_iff)

text \<open>
  C10. After any sequence of operations on the empty store, the active pointer is \<open>null\<close> or
  the identifier of a session of the collection, and what \<open>getActive\<close> returns is a session
  of the collection. \<open>setActive\<close> with an identifier that no session has leaves the pointer
  as it is, and right after \<open>deleteChat\<close> of an identifier, \<open>getActive\<close> returns no session
  with that identifier.
\<close>

theorem active_pointer_invariant:
  "active_ok (run_ops ops)
   \<and> (activeId (run_ops ops) = None \<or> (\<exists>c \<in> set (chats (run_ops ops)). activeId (run_ops ops) = Some (id_c c)))
   \<and> (\<forall>c. getActive (run_ops ops) = Some c \<longrightarrow> c \<in> set (chats (run_ops ops)))
   \<and> (\<not> list_ex (\<lambda>c. id_c c = i) (chats s) \<longrightarrow> activeId (setActive s i) = activeId s)
   \<and> (\<forall>c. getActive (deleteChat s i) = Some c \<longrightarrow> id_c c \<noteq> i \<and> c \<in> set (chats s))"
proof -
  have a: "active_ok (run_ops ops)"
    unfolding run_ops_def using active_ok_empty_store by (rule active_ok_foldl)
  have b: "activeId (run_ops ops) = None
      \<or> (\<exists>c \<in> set (chats (run_ops ops)). activeId (run_ops ops) = Some (id_c c))"
    using a by (cases "activeId (run_ops ops)") (auto simp: active_ok_ids)
  have c: "\<forall>c. getActive (run_ops ops) = Some c \<longrightarrow> c \<in> set (chats (run_ops ops))"
    by (auto dest: getActive_mem)
  have d: "\<not> list_ex (\<lambda>c. id_c c = i) (chats s) \<longrightarrow> activeId (setActive s i) = activeId s"
    by (simp add: setActive_def)
  have e: "\<forall>c. getActive (deleteChat s i) = Some c \<longrightarrow> id_c c \<noteq> i \<and> c \<in> set (chats s)"
    by (auto dest!: getActive_mem simp: deleteChat_def Let_def save_def)
  show ?thesis using a b c d e by blast
qed

theorem active_pointer_invariant_witness:
  "activeId (run_ops [CreateChat ''a'' 1 ''m'', CreateChat ''b'' 2 ''m'', SetActive ''zz'',
                      DeleteChat ''b'']) = Some ''a''
   \<and> active_ok (run_ops [CreateChat ''a'' 1 ''m'', CreateChat ''b'' 2 ''m'', SetActive ''zz'',
                      DeleteChat ''b''])"
  using active_pointer_invariant
    [of "[CreateChat ''a'' 1 ''m'', CreateChat ''b'' 2 ''m'', SetActive ''zz'', DeleteChat ''b'']"
        "''zz''" "run_ops [CreateChat ''a'' 1 ''m'', CreateChat ''b'' 2 ''m'']"]
  by (simp add: run_ops_def empty_store_def load_def front_id_def createChat_def Let_def save_def
      setActive_def deleteChat_def)

text \<open>
  C4 (amended). Let three sessions be created at \<open>now\<close>, two hours before and thirty hours
  before, with \<open>now\<close> more than two hours after local midnight. The first two are in the
  today group and in no other. The third is in the older group exactly when \<open>now\<close> is less
  than six hours after local midnight; from six hours on (and less than thirty hours, as on
  every calendar day) it is in the yesterday group.
\<close>

theorem recency_grouping:
  assumes "c1 \<in> set (chats s)" and "c2 \<in> set (chats s)" and "c3 \<in> set (chats s)"
    and "createdAt c1 = now" and "createdAt c2 = now - 2 * 3600000"
    and "createdAt c3 = now - 30 * 3600000"
    and "now - localMidnight now > 2 * 3600000"
  shows "c1 \<in> set (today (getChatsGroupedByDate localMidnight now s))
     \<and> c2 \<in> set (today (getChatsGroupedByDate localMidnight now s))
     \<and> c1 \<notin> set (yesterday (getChatsGroupedByDate localMidnight now s))
     \<and> c1 \<notin> set (older (getChatsGroupedByDate localMidnight now s))
     \<and> c2 \<notin> set (yesterday (getChatsGroupedByDate localMidnight now s))
     \<and> c2 \<notin> set (older (getChatsGroupedByDate localMidnight now s))
     \<and> (c3 \<in> set (older (getChatsGroupedByDate localMidnight now s))
          \<longleftrightarrow> now - localMidnight now < 6 * 3600000)
     \<and> (6 * 3600000 \<le> now - localMidnight now \<and> now - localMidnight now < 30 * 3600000
          \<longrightarrow> c3 \<in> set (yesterday (getChatsGroupedByDate localMidnight now s)))"
  using assms by (auto simp: getChatsGroupedByDate_def Let_def)

theorem recency_grouping_witness:
  "chat_at ''a'' 874800000 \<in> set (today (getChatsGroupedByDate utc_midnight 874800000
      \<lparr>chats = [chat_at ''a'' 874800000, chat_at ''b'' 867600000, chat_at ''c'' 766800000],
       activeId = Some ''a'', persisted = []\<rparr>))
   \<and> chat_at ''b'' 867600000 \<in> set (today (getChatsGroupedByDate utc_midnight 874800000
      \<lparr>chats = [chat_at ''a'' 874800000, chat_at ''b'' 867600000, chat_at ''c'' 766800000],
       activeId = Some ''a'', persisted = []\<rparr>))
   \<and> chat_at ''c'' 766800000 \<in> set (older (getChatsGroupedByDate utc_midnight 874800000
      \<lparr>chats = [chat_at ''a'' 874800000, chat_at ''b'' 867600000, chat_at ''c'' 766800000],
       activeId = Some ''a'', persisted = []\<rparr>))"
  using recency_grouping
    [of "chat_at ''a'' 874800000"
        "\<lparr>chats = [chat_at ''a'' 874800000, chat_at ''b'' 867600000, chat_at ''c'' 766800000],
          activeId = Some ''a'', persisted = []\<rparr>"
        "chat_at ''b'' 867600000" "chat_at ''c'' 766800000" 874800000 utc_midnight]
  by (simp add: utc_midnight_def chat_at_def)

theorem thirty_hours_counterexample:
  "900000000 - utc_midnight 900000000 = 10 * 3600000
   \<and> older (getChatsGroupedByDate utc_midnight 900000000
        \<lparr>chats = [chat_at ''a'' 900000000, chat_at ''b'' (900000000 - 2 * 3600000),
                  chat_at ''c'' (900000000 - 30 * 3600000)],
         activeId = Some ''a'', persisted = []\<rparr>) = []
   \<and> yesterday (getChatsGroupedByDate utc_midnight 900000000
        \<lparr>chats = [chat_at ''a'' 900000000, chat_at ''b'' (900000000 - 2 * 3600000),
                  chat_at ''c'' (900000000 - 30 * 3600000)],
         activeId = Some ''a'', persisted = []\<rparr>) = [chat_at ''c'' (900000000 - 30 * 3600000)]"
  by (simp add: getChatsGroupedByDate_def Let_def utc_midnight_def chat_at_def)

section \<open>Properties of the rounding to binary64\<close>

lemma scale_product: "scale n s f = (s', f') \<Longrightarrow> s' * f' = s * f"
proof (induction n s f rule: scale.induct)
  case (1 fuel s f)
  then show ?case
    by (subst (asm) (3) scale.simps) (auto split: if_splits)
qed

lemma scale_factor_pos: "0 < f \<Longrightarrow> scale n s f = (s', f') \<Longrightarrow> 0 < f'"
proof (induction n s f rule: scale.induct)
  case (1 fuel s f)
  from "1.prems"(2) "1.prems"(1) "1.IH" show ?case
    by (subst (asm) scale.simps) (auto split: if_splits)
qed

lemma scale_normal:
  "0 < s \<Longrightarrow> s < 2 ^ 53 \<Longrightarrow> 2 ^ 52 \<le> s * 2 ^ j \<Longrightarrow> j \<le> n \<Longrightarrow> scale n s f = (s', f')
     \<Longrightarrow> 2 ^ 52 \<le> s' \<and> s' < 2 ^ 53"
proof (induction j arbitrary: n s f)
  case 0
  then show ?case
    by (subst (asm) scale.simps) (auto split: if_splits)
next
  case (Suc j)
  show ?case
  proof (cases "s < 2 ^ 52")
    case False
    with Suc.prems show ?thesis
      by (subst (asm) scale.simps) (auto split: if_splits)
  next
    case True
    have n: "n \<noteq> 0" using Suc.prems(4) by simp
    have st: "scale (n - 1) (s * 2) (f / 2) = (s', f')"
      using Suc.prems(5) True n by (subst (asm) scale.simps) simp
    have "2 ^ 52 \<le> s * 2 * 2 ^ j" using Suc.prems(3) by (simp add: mult.assoc)
    moreover have "s * 2 < 2 ^ 53" using True by simp
    moreover have "0 < s * 2" using Suc.prems(1) by simp
    moreover have "j \<le> n - 1" using Suc.prems(4) by simp
    ultimately show ?thesis using Suc.IH [of "s * 2" "n - 1" "f / 2"] st by blast
  qed
qed

lemma round_half_even_close: "\<bar>of_int (round_half_even s) - s\<bar> \<le> 1 / 2"
proof -
  have "of_int \<lfloor>s\<rfloor> \<le> s" and "s < of_int \<lfloor>s\<rfloor> + 1" by linarith+
  then show ?thesis
    by (auto simp: round_half_even_def Let_def abs_le_iff)
qed

text \<open>The rounding error is at most half a unit in the last place.\<close>

lemma fl_error:
  assumes "0 < x" and "x < 2 ^ 53" and "2 ^ 52 \<le> x * 2 ^ j" and "j \<le> 1200"
  shows "\<bar>fl x - x\<bar> \<le> x / 2 ^ 53"
proof -
  obtain s f where sc: "scale 1200 \<bar>x\<bar> 1 = (s, f)"
    by (cases "scale 1200 \<bar>x\<bar> 1")
  have ax: "\<bar>x\<bar> = x" using assms(1) by simp
  have prod: "s * f = x" using scale_product [OF sc] ax by simp
  have fpos: "0 < f" using scale_factor_pos [OF _ sc] by simp
  have norm: "2 ^ 52 \<le> s \<and> s < 2 ^ 53"
    using scale_normal [where s = x and j = j and n = 1200 and f = 1 and s' = s and f' = f]
      sc assms ax by simp
  have sc': "scale 1200 x 1 = (s, f)" using sc ax by simp
  have flx: "fl x = of_int (round_half_even s) * f"
    using assms(1) by (simp add: fl_def sc')
  have "fl x - x = of_int (round_half_even s) * f - s * f"
    unfolding flx using prod by simp
  then have "fl x - x = (of_int (round_half_even s) - s) * f"
    by (simp add: left_diff_distrib)
  then have "\<bar>fl x - x\<bar> = \<bar>of_int (round_half_even s) - s\<bar> * f"
    using fpos by (simp add: abs_mult)
  also have "\<dots> \<le> 1 / 2 * f"
    using round_half_even_close [of s] fpos by (intro mult_right_mono) simp_all
  also have "\<dots> \<le> x / 2 ^ 53"
  proof -
    have "f * 2 ^ 52 \<le> f * s" using norm fpos by simp
    then have "f * 2 ^ 52 \<le> x" using prod by (simp add: mult.commute)
    then show ?thesis by simp
  qed
  finally show ?thesis .
qed

lemma fl_zero [simp]: "fl 0 = 0"
  by (simp add: fl_def)

text \<open>
  Rounding to the nearest integer does not see an error that is smaller than the distance
  of a fraction from a tie.
\<close>

lemma nearest_int_stable:
  fixes a b :: int and p :: real
  assumes "0 < b" and "\<bar>p - of_int a / of_int b\<bar> < 1 / (2 * of_int b)"
  shows "\<bar>of_int \<lfloor>p + 1 / 2\<rfloor> - (of_int a / of_int b :: real)\<bar> \<le> 1 / 2"
proof -
  let ?k = "\<lfloor>p + 1 / 2\<rfloor>"
  have bpos: "(0::real) < of_int b" using assms(1) by simp
  have k1: "of_int ?k \<le> p + 1 / 2" and k2: "p + 1 / 2 < of_int ?k + 1" by linarith+
  have d: "\<bar>p * of_int b - of_int a\<bar> < 1 / 2"
  proof -
    have "\<bar>p - of_int a / of_int b\<bar> * of_int b < 1 / (2 * of_int b) * of_int b"
      using assms(2) bpos by (rule mult_strict_right_mono)
    moreover have e1: "(p - of_int a / of_int b) * of_int b = p * of_int b - of_int a"
      using bpos by (simp add: field_simps)
    moreover have "\<bar>p - of_int a / of_int b\<bar> * of_int b = \<bar>p * of_int b - of_int a\<bar>"
      unfolding e1 [symmetric] abs_mult using bpos by simp
    ultimately show ?thesis using bpos by simp
  qed
  have "of_int ?k * of_int b \<le> (p + 1 / 2) * of_int b"
    using k1 bpos by (simp add: mult_right_mono)
  then have u: "of_int ?k * of_int b \<le> p * of_int b + of_int b / 2"
    by (simp add: algebra_simps)
  have "(p + 1 / 2) * of_int b < (of_int ?k + 1) * of_int b"
    using k2 bpos by (simp add: mult_strict_right_mono)
  then have l: "p * of_int b + of_int b / 2 < of_int ?k * of_int b + of_int b"
    by (simp add: algebra_simps)
  have "2 * (of_int ?k * of_int b) < 2 * of_int a + of_int b + (1::real)"
    using u d by linarith
  then have "real_of_int (2 * ?k * b) < real_of_int (2 * a + b + 1)"
    by simp
  then have "2 * ?k * b < 2 * a + b + 1" by (simp only: of_int_less_iff)
  then have up: "2 * ?k * b \<le> 2 * a + b" by simp
  have "2 * of_int a + of_int b - (1::real) < 2 * (of_int ?k * of_int b) + 2 * of_int b"
    using l d by linarith
  then have "real_of_int (2 * a + b - 1) < real_of_int (2 * ?k * b + 2 * b)"
    by simp
  then have "2 * a + b - 1 < 2 * ?k * b + 2 * b" by (simp only: of_int_less_iff)
  then have lo: "2 * a \<le> 2 * ?k * b + b" by simp
  have "real_of_int (2 * ?k * b) \<le> real_of_int (2 * a + b)"
    using up by (simp only: of_int_le_iff)
  then have r1: "of_int ?k - of_int a / of_int b \<le> (1 / 2 :: real)"
    using bpos by (simp add: field_simps)
  have "real_of_int (2 * a) \<le> real_of_int (2 * ?k * b + b)"
    using lo by (simp only: of_int_le_iff)
  then have r2: "- (1 / 2 :: real) \<le> of_int ?k - of_int a / of_int b"
    using bpos by (simp add: field_simps)
  show ?thesis using r1 r2 by linarith
qed

lemma nearest_is_round:
  fixes k :: int and x :: real
  assumes "\<bar>of_int k - x\<bar> \<le> 1 / 2" and "of_int \<lfloor>x + 1 / 2\<rfloor> \<noteq> x + 1 / 2"
  shows "k = round x"
proof -
  have f1: "of_int \<lfloor>x + 1 / 2\<rfloor> < x + 1 / 2"
    using assms(2) of_int_floor_le [of "x + 1 / 2"] by linarith
  have f2: "x + 1 / 2 < of_int \<lfloor>x + 1 / 2\<rfloor> + 1" by linarith
  have "of_int k < of_int \<lfloor>x + 1 / 2\<rfloor> + (1::real)" using assms(1) f2 by linarith
  then have a: "k \<le> \<lfloor>x + 1 / 2\<rfloor>"
    by (metis of_int_1 of_int_add of_int_less_iff zle_add1_eq_le zless_add1_eq le_less)
  have "of_int \<lfloor>x + 1 / 2\<rfloor> < of_int k + (1::real)" using assms(1) f1 by linarith
  then have b: "\<lfloor>x + 1 / 2\<rfloor> \<le> k"
    by (metis of_int_1 of_int_add of_int_less_iff zle_add1_eq_le zless_add1_eq le_less)
  show ?thesis using a b by (simp add: round_def)
qed

section \<open>Properties of the context tracker\<close>

lemma not_tie: "frac x \<noteq> 1 / 2 \<Longrightarrow> of_int \<lfloor>x + 1 / 2\<rfloor> \<noteq> x + (1 / 2 :: real)"
proof
  assume nt: "frac x \<noteq> 1 / 2" and eq: "of_int \<lfloor>x + 1 / 2\<rfloor> = x + (1 / 2 :: real)"
  define m where "m = \<lfloor>x + 1 / 2\<rfloor>"
  have e: "of_int m = x + 1 / 2" using eq by (simp add: m_def)
  have l: "of_int (m - 1) \<le> x" using e by simp
  have u: "x < of_int (m - 1) + 1" using e by simp
  have "\<lfloor>x\<rfloor> = m - 1" using l u by (rule floor_unique)
  then have "frac x = 1 / 2" using e by (simp add: frac_def)
  with nt show False by simp
qed

text \<open>
  The integer that \<open>getUsage\<close> divides by ten is a nearest integer to the exact value of
  \<open>used / total * 1000\<close>: the two roundings to binary64 before \<open>Math.round\<close> cannot move the
  product across a tie.
\<close>

lemma per_mille_nearest:
  fixes u t :: nat
  assumes "0 < t" and "u < 2 ^ 40" and "t < 2 ^ 40"
  shows "\<bar>of_int (Math_round (fl (fl (real u / real t) * 1000))) - real u / real t * 1000\<bar> \<le> 1 / 2"
proof (cases "u = 0")
  case True
  then show ?thesis by (simp add: Math_round_def)
next
  case False
  define x where "x = real u / real t"
  define q where "q = fl x"
  define p where "p = fl (q * 1000)"
  have tpos: "0 < real t" and upos: "1 \<le> real u" using assms(1) False by simp_all
  have ub: "real u < 2 ^ 40" and tb: "real t < 2 ^ 40"
    using assms(2,3) by (simp_all add: of_nat_less_numeral_power_cancel_iff)
  have xpos: "0 < x" using tpos upos by (simp add: x_def)
  have "x \<le> real u / 1"
    unfolding x_def by (rule divide_left_mono) (use assms(1) upos in simp_all)
  then have xu: "x \<le> real u" by simp
  have "1 / 2 ^ 40 \<le> real u / real t"
    by (rule frac_le) (use upos tpos tb in simp_all)
  then have xl: "1 / 2 ^ 40 \<le> x" by (simp add: x_def)
  have x53: "x < 2 ^ 53" using xu ub by simp
  have x92: "2 ^ 52 \<le> x * 2 ^ 92" using xl by simp
  have eq: "\<bar>q - x\<bar> \<le> x / 2 ^ 53"
    unfolding q_def using xpos x53 x92 by (rule fl_error) simp
  have h53: "x / 2 ^ 53 \<le> x / 2"
    by (rule divide_left_mono) (use xpos in simp_all)
  have ql: "x / 2 \<le> q" and qu: "q \<le> 2 * x" using eq h53 xpos by linarith+
  have ypos: "0 < q * 1000" using ql xpos by simp
  have y53: "q * 1000 < 2 ^ 53" using qu xu ub by simp
  have y92: "2 ^ 52 \<le> q * 1000 * 2 ^ 92" using ql xl by simp
  have ep: "\<bar>p - q * 1000\<bar> \<le> q * 1000 / 2 ^ 53"
    unfolding p_def using ypos y53 y92 by (rule fl_error) simp
  have am: "\<bar>1000 * (q - x)\<bar> = 1000 * \<bar>q - x\<bar>"
    by (subst abs_mult) simp
  have "\<bar>p - x * 1000\<bar> = \<bar>(p - q * 1000) + 1000 * (q - x)\<bar>" by simp
  also have "\<dots> \<le> \<bar>p - q * 1000\<bar> + \<bar>1000 * (q - x)\<bar>"
    by (rule abs_triangle_ineq)
  also have "\<dots> = \<bar>p - q * 1000\<bar> + 1000 * \<bar>q - x\<bar>"
    by (simp only: am)
  also have "\<dots> \<le> q * 1000 / 2 ^ 53 + 1000 * (x / 2 ^ 53)"
    using ep eq by simp
  also have "\<dots> \<le> 3000 * x / 2 ^ 53" using qu by simp
  finally have e: "\<bar>p - x * 1000\<bar> \<le> 3000 * x / 2 ^ 53" .
  have "3000 * x / 2 ^ 53 < 1 / (2 * real t)"
  proof -
    have "6000 * real u < 2 ^ 53" using ub by simp
    then show ?thesis using tpos by (simp add: x_def field_simps)
  qed
  with e have c: "\<bar>p - x * 1000\<bar> < 1 / (2 * real t)" by simp
  have xa: "x * 1000 = of_int (int (1000 * u)) / of_int (int t)"
    by (simp add: x_def)
  have "\<bar>of_int \<lfloor>p + 1 / 2\<rfloor> - (of_int (int (1000 * u)) / of_int (int t) :: real)\<bar> \<le> 1 / 2"
    by (rule nearest_int_stable) (use c xa assms(1) in simp_all)
  then show ?thesis
    by (simp add: Math_round_def p_def q_def x_def mult.commute)
qed

lemmas eval_fl = fl_def scale.simps round_half_even_def

lemmas eval_show = show_nat.simps digit_def

lemma tenths_roundtrip:
  fixes k :: nat
  assumes "k < 2 ^ 50"
  shows "round (fl (real k / 10) * 10) = int k"
proof (cases "k = 0")
  case True
  then show ?thesis by simp
next
  case False
  define x where "x = real k / 10"
  have kb: "real k < 2 ^ 50"
    using assms by (simp add: of_nat_less_numeral_power_cancel_iff)
  have k1: "1 \<le> real k" using False by simp
  have xpos: "0 < x" using k1 by (simp add: x_def)
  have x53: "x < 2 ^ 53" using kb by (simp add: x_def)
  have x56: "2 ^ 52 \<le> x * 2 ^ 56" using k1 by (simp add: x_def)
  have e: "\<bar>fl x - x\<bar> \<le> x / 2 ^ 53"
    using xpos x53 x56 by (rule fl_error) simp
  have am: "\<bar>10 * (fl x - x)\<bar> = 10 * \<bar>fl x - x\<bar>"
    by (subst abs_mult) simp
  have "\<bar>fl x * 10 - real k\<bar> = \<bar>10 * (fl x - x)\<bar>" by (simp add: x_def)
  also have "\<dots> \<le> 10 * (x / 2 ^ 53)" unfolding am using e by simp
  also have "\<dots> < 1 / 2" using kb by (simp add: x_def)
  finally have c: "\<bar>fl x * 10 - real k\<bar> < 1 / 2" .
  have r: "of_int (int k) = real k" by simp
  have a1: "fl x * 10 - 1 / 2 < of_int (int k)" unfolding r using c by linarith
  have a2: "of_int (int k) \<le> fl x * 10 + 1 / 2" unfolding r using c by linarith
  have "round (fl x * 10) = int k"
    using a1 a2 by (rule round_unique)
  then show ?thesis by (simp add: x_def)
qed


lemma show_Number_tenths:
  fixes k :: nat
  assumes "k < 2 ^ 50"
  shows "show_Number (Finite (fl (real k / 10)))
       = show_nat (k div 10) @ (if k mod 10 = 0 then [] else ''.'' @ show_nat (k mod 10))"
  by (simp add: tenths_roundtrip [OF assms] Let_def)

text \<open>
  C3 (amended). For a session with a stored snapshot and a positive capacity, \<open>getUsage\<close>
  returns as percent the value of \<open>Math.round((used / total) * 1000) / 10\<close> with the quotient,
  the product and the last quotient each rounded to binary64. With both counts below \<open>2^40\<close>
  the integer that \<open>Math.round\<close> gives is a nearest integer to the exact
  \<open>used / total * 1000\<close>; it is \<open>round (used / total * 1000)\<close> unless that product lies
  halfway between two integers, where the binary64 roundings decide: for 203 of 400 tokens
  it is 507, and the percentage is 50.7. With capacity zero the percentage is \<open>NaN\<close> for no
  used tokens and \<open>Infinity\<close> otherwise. For 8500 of 204800 tokens the percentage is 4.2,
  and for 1024 of 4096 it is 25.
\<close>

theorem getUsage_percent:
  assumes "tokenCounts chatId = Some data"
  shows "(0 < TokenCount.total data \<longrightarrow>
          percent (getUsage tokenCounts chatId) =
            Finite (fl (of_int (Math_round
               (fl (fl (real (TokenCount.used data) / real (TokenCount.total data)) * 1000))) / 10)))
     \<and> (0 < TokenCount.total data \<and> TokenCount.used data < 2 ^ 40
          \<and> TokenCount.total data < 2 ^ 40 \<longrightarrow>
          (\<exists>k. percent (getUsage tokenCounts chatId) = Finite (fl (of_int k / 10))
             \<and> \<bar>of_int k - real (TokenCount.used data) / real (TokenCount.total data) * 1000\<bar>
                 \<le> 1 / 2
             \<and> (frac (real (TokenCount.used data) / real (TokenCount.total data) * 1000) \<noteq> 1 / 2
                 \<longrightarrow> k = round (real (TokenCount.used data) / real (TokenCount.total data)
                                  * 1000))))
     \<and> (TokenCount.total data = 0 \<longrightarrow>
          percent (getUsage tokenCounts chatId)
            = (if TokenCount.used data = 0 then NaN else Infinity))
     \<and> (TokenCount.used data = 8500 \<and> TokenCount.total data = 204800 \<longrightarrow>
          percent (getUsage tokenCounts chatId) = Finite (fl (42 / 10))
          \<and> show_Number (percent (getUsage tokenCounts chatId)) = ''4.2'')
     \<and> (TokenCount.used data = 1024 \<and> TokenCount.total data = 4096 \<longrightarrow>
          percent (getUsage tokenCounts chatId) = Finite 25
          \<and> show_Number (percent (getUsage tokenCounts chatId)) = ''25'')
     \<and> (TokenCount.used data = 203 \<and> TokenCount.total data = 400 \<longrightarrow>
          percent (getUsage tokenCounts chatId) = Finite (fl (507 / 10))
          \<and> show_Number (percent (getUsage tokenCounts chatId)) = ''50.7'')"
proof -
  let ?u = "TokenCount.used data" and ?t = "TokenCount.total data"
  let ?k = "Math_round (fl (fl (real ?u / real ?t) * 1000))"
  have p: "0 < ?t \<Longrightarrow> percent (getUsage tokenCounts chatId) = Finite (fl (of_int ?k / 10))"
    by (simp add: getUsage_def assms)
  have f: "0 < ?t \<longrightarrow> percent (getUsage tokenCounts chatId) = Finite (fl (of_int ?k / 10))"
    using p by simp
  have g: "0 < ?t \<and> ?u < 2 ^ 40 \<and> ?t < 2 ^ 40 \<longrightarrow>
          (\<exists>k. percent (getUsage tokenCounts chatId) = Finite (fl (of_int k / 10))
             \<and> \<bar>of_int k - real ?u / real ?t * 1000\<bar> \<le> 1 / 2
             \<and> (frac (real ?u / real ?t * 1000) \<noteq> 1 / 2
                 \<longrightarrow> k = round (real ?u / real ?t * 1000)))"
  proof
    assume h: "0 < ?t \<and> ?u < 2 ^ 40 \<and> ?t < 2 ^ 40"
    have n: "\<bar>of_int ?k - real ?u / real ?t * 1000\<bar> \<le> 1 / 2"
      using h by (intro per_mille_nearest) simp_all
    have r: "frac (real ?u / real ?t * 1000) \<noteq> 1 / 2 \<longrightarrow> ?k = round (real ?u / real ?t * 1000)"
      using nearest_is_round [OF n] not_tie by blast
    show "\<exists>k. percent (getUsage tokenCounts chatId) = Finite (fl (of_int k / 10))
             \<and> \<bar>of_int k - real ?u / real ?t * 1000\<bar> \<le> 1 / 2
             \<and> (frac (real ?u / real ?t * 1000) \<noteq> 1 / 2
                 \<longrightarrow> k = round (real ?u / real ?t * 1000))"
    proof (intro exI [of _ ?k] conjI)
      show "percent (getUsage tokenCounts chatId) = Finite (fl (of_int ?k / 10))"
        using h by (intro p) simp
      show "\<bar>of_int ?k - real ?u / real ?t * 1000\<bar> \<le> 1 / 2" by (rule n)
      show "frac (real ?u / real ?t * 1000) \<noteq> 1 / 2 \<longrightarrow> ?k = round (real ?u / real ?t * 1000)"
        by (rule r)
    qed
  qed
  have z: "?t = 0 \<longrightarrow>
          percent (getUsage tokenCounts chatId) = (if ?u = 0 then NaN else Infinity)"
    by (simp add: getUsage_def assms)
  have k1: "Math_round (fl (fl (8500 / 204800) * 1000)) = 42"
    by (simp add: Math_round_def eval_fl)
  have k2: "Math_round (fl (fl (1024 / 4096) * 1000)) = 250"
    by (simp add: Math_round_def eval_fl)
  have k3: "Math_round (fl (fl (203 / 400) * 1000)) = 507"
    by (simp add: Math_round_def eval_fl)
  have s1: "show_Number (Finite (fl (42 / 10))) = ''4.2''"
    using show_Number_tenths [of 42] by (simp add: eval_show)
  have f25: "fl (250 / 10) = 25"
    by (simp add: eval_fl)
  have s2: "show_Number (Finite 25) = ''25''"
    by (simp add: round_def eval_show)
  have s3: "show_Number (Finite (fl (507 / 10))) = ''50.7''"
    using show_Number_tenths [of 507] by (simp add: eval_show)
  have i1: "?u = 8500 \<and> ?t = 204800 \<longrightarrow>
          percent (getUsage tokenCounts chatId) = Finite (fl (42 / 10))
          \<and> show_Number (percent (getUsage tokenCounts chatId)) = ''4.2''"
    using p k1 s1 by auto
  have i2: "?u = 1024 \<and> ?t = 4096 \<longrightarrow>
          percent (getUsage tokenCounts chatId) = Finite 25
          \<and> show_Number (percent (getUsage tokenCounts chatId)) = ''25''"
    using p k2 f25 s2 by auto
  have i3: "?u = 203 \<and> ?t = 400 \<longrightarrow>
          percent (getUsage tokenCounts chatId) = Finite (fl (507 / 10))
          \<and> show_Number (percent (getUsage tokenCounts chatId)) = ''50.7''"
    using p k3 s3 by auto
  show ?thesis using f g z i1 i2 i3 by blast
qed

theorem getUsage_percent_witness:
  "percent (getUsage (update Map.empty ''a'' 8000 500 204800) ''a'') = Finite (fl (42 / 10))
   \<and> show_Number (percent (getUsage (update Map.empty ''a'' 8000 500 204800) ''a'')) = ''4.2''"
  using getUsage_percent
    [of "update Map.empty ''a'' 8000 500 204800" "''a''"
        "\<lparr>TokenCount.used = 8500, total = 204800\<rparr>"]
  by (simp add: update_def Math_round_def eval_fl round_def eval_show)

theorem tie_percent_counterexample:
  "percent (getUsage (update Map.empty ''a'' 200 3 400) ''a'') = Finite (fl (507 / 10))
   \<and> show_Number (percent (getUsage (update Map.empty ''a'' 200 3 400) ''a'')) = ''50.7''
   \<and> round (203 / 400 * 1000 :: real) = 508
   \<and> round_half_even (203 / 400 * 1000) = 508
   \<and> fl (507 / 10) \<noteq> fl (508 / 10)"
proof -
  have k3: "Math_round (fl (fl (203 / 400) * 1000)) = 507"
    by (simp add: Math_round_def eval_fl)
  have p: "percent (getUsage (update Map.empty ''a'' 200 3 400) ''a'') = Finite (fl (507 / 10))"
    by (simp add: getUsage_def update_def k3)
  have s: "show_Number (Finite (fl (507 / 10))) = ''50.7''"
    using show_Number_tenths [of 507] by (simp add: eval_show)
  have r: "round (203 / 400 * 1000 :: real) = 508"
    by (simp add: round_def)
  have e: "round_half_even (203 / 400 * 1000) = 508"
    by (simp add: round_half_even_def)
  have d: "fl (507 / 10) \<noteq> fl (508 / 10)"
    by (simp add: eval_fl)
  show ?thesis using p s r e d by simp
qed






section \<open>Properties of a failed turn\<close>

lemma chatStream_not_ok:
  "\<not> ok res \<Longrightarrow>
   chatStream pf (\<lambda>req. Resolved res) mdl msgs think =
     \<lparr>sent = [\<lparr>ChatRequest.model = mdl, messages = msgs, stream = True,
                options = (if think then Some True else None)\<rparr>],
      yielded = [],
      thrown = Some (Error (''Ollama API error: '' @ show_nat (status res) @ '' ''
                              @ statusText res))\<rparr>"
  by (simp add: chatStream_def Let_def)

lemma map_update_first:
  "(\<And>x. g (f x) = g x) \<Longrightarrow> map g (update_first P f xs) = map g xs"
  by (induction xs) auto

lemma contextUsed_push_message [simp]: "contextUsed (push_message msg c) = contextUsed c"
  by (simp add: push_message_def Let_def)

lemma contextTotal_push_message [simp]: "contextTotal (push_message msg c) = contextTotal c"
  by (simp add: push_message_def Let_def)

lemma usage_addMessage:
  "map contextUsed (chats (addMessage s i m)) = map contextUsed (chats s)
   \<and> map contextTotal (chats (addMessage s i m)) = map contextTotal (chats s)"
  by (simp add: addMessage_def save_def map_update_first split: option.splits)

lemma getActive_getById: "getActive s = Some c \<Longrightarrow> getById s (id_c c) = Some c"
proof -
  assume a: "getActive s = Some c"
  then have "activeId s = Some (id_c c)" by (simp add: getActive_mem)
  with a show ?thesis by (simp add: getActive_def getById_def)
qed

lemma getById_addMessage:
  "getById s i = Some c \<Longrightarrow> getById (addMessage s i m) i = Some (push_message m c)"
  by (simp add: getById_def addMessage_def save_def find_update_first)

text \<open>
  C6. When the server answers the chat request with a status that is not a success,
  \<open>chatStream\<close> sends that one request, yields no chunk and throws an error whose message
  carries the status and its text. \<open>handleSendMessage\<close> then ends with the user message as
  the only change to the store: the log of the active chat is the old log with the user
  message at its end, so no assistant message is appended; the tracker and the stored usage
  of every chat are as before, exactly one request has been sent, and the webview is told of
  the error.
\<close>

theorem request_failure:
  assumes "fetch_chat w = (\<lambda>req. Resolved res)" and "\<not> ok res"
    and "getActive (chatManager s) = Some c" and "trim input \<noteq> []"
  shows "chatStream pf (fetch_chat w) mdl msgs think =
       \<lparr>sent = [\<lparr>ChatRequest.model = mdl, messages = msgs, stream = True,
                  options = (if think then Some True else None)\<rparr>],
        yielded = [],
        thrown = Some (Error (''Ollama API error: '' @ show_nat (status res) @ '' ''
                                @ statusText res))\<rparr>
     \<and> (\<exists>s'. handleSendMessage pf w input s = Some s'
          \<and> chatManager s' =
              addMessage (chatManager s) (id_c c)
                \<lparr>Message.role = User, content = trim input, thinking = None,
                 thinkingTime = None, timestamp = clock w (ticks s)\<rparr>
          \<and> (\<exists>c'. getById (chatManager s') (id_c c) = Some c'
                \<and> messages c' = messages c @
                    [\<lparr>Message.role = User, content = trim input, thinking = None,
                      thinkingTime = None, timestamp = clock w (ticks s)\<rparr>])
          \<and> map contextUsed (chats (chatManager s')) = map contextUsed (chats (chatManager s))
          \<and> map contextTotal (chats (chatManager s')) = map contextTotal (chats (chatManager s))
          \<and> contextTracker s' = contextTracker s
          \<and> length (requests s') = length (requests s) + 1
          \<and> posted s' = posted s @
              [AddMessageMsg \<lparr>Message.role = User, content = trim input, thinking = None,
                              thinkingTime = None, timestamp = clock w (ticks s)\<rparr>,
               StreamStart,
               ErrorMsg (''Error: Ollama API error: '' @ show_nat (status res) @ '' ''
                           @ statusText res),
               StreamComplete None])"
proof -
  let ?m = "\<lparr>Message.role = User, content = trim input, thinking = None,
             thinkingTime = None, timestamp = clock w (ticks s)\<rparr>"
  have g: "chatStream pf (fetch_chat w) mdl msgs think =
       \<lparr>sent = [\<lparr>ChatRequest.model = mdl, messages = msgs, stream = True,
                  options = (if think then Some True else None)\<rparr>],
        yielded = [],
        thrown = Some (Error (''Ollama API error: '' @ show_nat (status res) @ '' ''
                                @ statusText res))\<rparr>"
    for mdl msgs think
    unfolding assms(1) using assms(2) by (rule chatStream_not_ok)
  have h: "\<exists>s'. handleSendMessage pf w input s = Some s'
          \<and> chatManager s' = addMessage (chatManager s) (id_c c) ?m
          \<and> contextTracker s' = contextTracker s
          \<and> length (requests s') = length (requests s) + 1
          \<and> posted s' = posted s @
              [AddMessageMsg ?m, StreamStart,
               ErrorMsg (''Error: Ollama API error: '' @ show_nat (status res) @ '' ''
                           @ statusText res),
               StreamComplete None]"
    by (simp add: handleSendMessage_def assms(3,4) Let_def g on_error_def postMessage_def)
  have l: "\<exists>c'. getById (addMessage (chatManager s) (id_c c) ?m) (id_c c) = Some c'
             \<and> messages c' = messages c @ [?m]"
    using getById_addMessage [OF getActive_getById [OF assms(3)], of ?m] by simp
  show ?thesis using g h l usage_addMessage [of "chatManager s" "id_c c" ?m] by metis
qed

theorem request_failure_witness:
  "\<exists>s'. handleSendMessage sample_platform failing_world ''hi'' sample_provider = Some s'
      \<and> contextTracker s' = Map.empty
      \<and> map messages (chats (chatManager s')) = [[user_msg ''hi'']]
      \<and> posted s' =
           [AddMessageMsg (user_msg ''hi''), StreamStart,
            ErrorMsg ''Error: Ollama API error: 500 Internal Server Error'',
            StreamComplete None]"
proof -
  have a: "getActive (chatManager sample_provider) = Some (chat_at ''a'' 0)"
    by (simp add: getActive_def sample_provider_def chat_at_def)
  have t: "trim ''hi'' = ''hi''"
    by (simp add: trim_def js_whitespace_def)
  have n: "show_nat 500 = ''500''"
    by (simp add: eval_show)
  have f: "fetch_chat failing_world =
      (\<lambda>req. Resolved \<lparr>ok = False, status = 500, statusText = ''Internal Server Error'',
                        body = [], body_end = None\<rparr>)"
    by (simp add: failing_world_def)
  have am: "addMessage (chatManager sample_provider) ''a'' (user_msg ''hi'') =
      \<lparr>chats = [(chat_at ''a'' 0)\<lparr>messages := [user_msg ''hi''], title := ''hi''\<rparr>],
       activeId = Some ''a'',
       persisted = [(chat_at ''a'' 0)\<lparr>messages := [user_msg ''hi''], title := ''hi''\<rparr>]\<rparr>"
    by (simp add: addMessage_def sample_provider_def chat_at_def save_def push_message_def
        user_msg_def Let_def t)
  have c0: "clock failing_world (ticks sample_provider) = 0"
    by (simp add: failing_world_def sample_provider_def)
  have u: "\<lparr>Message.role = User, content = ''hi'', thinking = None, thinkingTime = None,
            timestamp = 0\<rparr> = user_msg ''hi''"
    by (simp add: user_msg_def)
  from request_failure [OF f _ a, where input = "''hi''" and pf = sample_platform
      and mdl = "''m''" and msgs = "[]" and think = True]
  obtain s' where
    "handleSendMessage sample_platform failing_world ''hi'' sample_provider = Some s'"
    "chatManager s' = addMessage (chatManager sample_provider) ''a'' (user_msg ''hi'')"
    "contextTracker s' = contextTracker sample_provider"
    "posted s' = posted sample_provider @
        [AddMessageMsg (user_msg ''hi''), StreamStart,
         ErrorMsg ''Error: Ollama API error: 500 Internal Server Error'', StreamComplete None]"
    by (auto simp: t n c0 u chat_at_def)
  then show ?thesis
    by (simp add: am) (simp add: sample_provider_def)
qed

lemma end_to_end_turn:
  "\<exists>s'. handleSendMessage sample_platform hello_world ''hi'' sample_provider = Some s'
      \<and> map (map Message.content \<circ> messages) (chats (chatManager s')) = [[''hi'', ''Hello'']]
      \<and> map (map Message.thinking \<circ> messages) (chats (chatManager s')) = [[None, None]]
      \<and> map contextUsed (chats (chatManager s')) = [15]
      \<and> contextTracker s' ''a'' = Some \<lparr>TokenCount.used = 15, total = 8192\<rparr>"
proof -
  have a: "getActive (chatManager sample_provider) = Some (chat_at ''a'' 0)"
    by (simp add: getActive_def sample_provider_def chat_at_def)
  have t: "trim ''hi'' = ''hi''"
    by (simp add: trim_def js_whitespace_def)
  have f: "fetch_chat hello_world =
      respond [utf8_ascii (rec_hel @ newline # rec_lo), utf8_ascii (newline # rec_done)]"
    by (simp add: hello_world_def)
  have mi: "getModelInfo (fetch_show hello_world) mdl =
      Inr \<lparr>ModelInfo.contextLength = JNum 8192, family = JStr ''''\<rparr>" for mdl
    by (simp add: getModelInfo_def hello_world_def opt_chain_def)
  show ?thesis
    unfolding handleSendMessage_def Let_def a option.case t f hello_stream
    by (simp add: mi Let_def postMessage_def sample_platform_def sample_provider_def chat_at_def
        addMessage_def save_def push_message_def updateContext_def update_def)
qed

end
